theory Spec2Isabelle
  imports Complex_Main "HOL-Library.Word" "HOL-Library.AList"
begin

section \<open>JavaScript numbers\<close>

text \<open>
  The fields \<open>price\<close>, \<open>timestamp\<close> and \<open>decimals\<close> of a \<open>PriceData\<close> are JavaScript
  numbers: IEEE 754 binary64 values. A finite one is modelled by the rational it denotes,
  the two infinities and NaN are values of their own. Every operation that the code
  applies (reading a decimal string or a bigint with \<open>Number\<close>, \<open>*\<close>, \<open>/\<close>) returns the
  double nearest to the exact result, ties going to the even significand: \<open>round_double\<close>.
  Negative zero is identified with zero (\<open>-0 === 0\<close>); no number that the service divides
  by is a negative zero.
\<close>

datatype number = Fin rat | PosInf | NegInf | NaN

text \<open>The power of two with an integer exponent.\<close>

definition pow2 :: "int \<Rightarrow> rat" where
  "pow2 e = (if 0 \<le> e then 2 ^ nat e else 1 / 2 ^ nat (- e))"

text \<open>The number of binary digits of a natural number.\<close>

function bit_length :: "nat \<Rightarrow> nat" where
  "bit_length n = (if n = 0 then 0 else Suc (bit_length (n div 2)))"
  by pat_completeness auto
termination
  by (relation "measure (\<lambda>n. n)") auto

declare bit_length.simps [simp del]

text \<open>
  The binary exponent of a positive rational \<open>a\<close>: the integer \<open>e\<close> with
  \<open>2^e \<le> a < 2^(e+1)\<close>.
\<close>

definition exponent :: "rat \<Rightarrow> int" where
  "exponent a =
     (if 1 \<le> a then int (bit_length (nat \<lfloor>a\<rfloor>)) - 1
      else - int (bit_length (nat (\<lceil>1 / a\<rceil> - 1))))"

text \<open>The nearest integer, a tie going to the even one.\<close>

definition round_half_even :: "rat \<Rightarrow> int" where
  "round_half_even m =
     (let f = \<lfloor>m\<rfloor>; r = m - of_int f
      in if r < 1 / 2 then f else if 1 / 2 < r then f + 1 else if even f then f else f + 1)"

text \<open>
  Rounding a positive rational to binary64. The doubles around \<open>a\<close> are the multiples of
  the quantum \<open>2^(e - 52)\<close>, where \<open>e\<close> is the exponent of \<open>a\<close> and at least \<open>-1022\<close> (below
  that the doubles are subnormal and \<open>2^(-1074)\<close> apart). A result of \<open>2^1024\<close> or more is
  an overflow.
\<close>

definition round_positive :: "rat \<Rightarrow> number" where
  "round_positive a =
     (let q = pow2 (max (exponent a) (- 1022) - 52);
          r = of_int (round_half_even (a / q)) * q
      in if pow2 1024 \<le> r then PosInf else Fin r)"

fun js_neg :: "number \<Rightarrow> number" where
  "js_neg (Fin a) = Fin (- a)"
| "js_neg PosInf = NegInf"
| "js_neg NegInf = PosInf"
| "js_neg NaN = NaN"

definition round_double :: "rat \<Rightarrow> number" where
  "round_double x =
     (if x = 0 then Fin 0
      else if 0 < x then round_positive x
      else js_neg (round_positive (- x)))"

text \<open>The operator \<open>/\<close> on numbers.\<close>

fun js_div :: "number \<Rightarrow> number \<Rightarrow> number" where
  "js_div NaN _ = NaN"
| "js_div _ NaN = NaN"
| "js_div (Fin a) (Fin b) =
     (if b \<noteq> 0 then round_double (a / b)
      else if a = 0 then NaN
      else if 0 < a then PosInf else NegInf)"
| "js_div (Fin a) PosInf = Fin 0"
| "js_div (Fin a) NegInf = Fin 0"
| "js_div PosInf (Fin b) = (if b < 0 then NegInf else PosInf)"
| "js_div NegInf (Fin b) = (if b < 0 then PosInf else NegInf)"
| "js_div PosInf PosInf = NaN"
| "js_div PosInf NegInf = NaN"
| "js_div NegInf PosInf = NaN"
| "js_div NegInf NegInf = NaN"

text \<open>The operator \<open>*\<close> on numbers.\<close>

fun js_mul :: "number \<Rightarrow> number \<Rightarrow> number" where
  "js_mul NaN _ = NaN"
| "js_mul _ NaN = NaN"
| "js_mul (Fin a) (Fin b) = round_double (a * b)"
| "js_mul (Fin a) PosInf = (if a = 0 then NaN else if 0 < a then PosInf else NegInf)"
| "js_mul (Fin a) NegInf = (if a = 0 then NaN else if 0 < a then NegInf else PosInf)"
| "js_mul PosInf (Fin b) = (if b = 0 then NaN else if 0 < b then PosInf else NegInf)"
| "js_mul NegInf (Fin b) = (if b = 0 then NaN else if 0 < b then NegInf else PosInf)"
| "js_mul PosInf PosInf = PosInf"
| "js_mul PosInf NegInf = NegInf"
| "js_mul NegInf PosInf = NegInf"
| "js_mul NegInf NegInf = PosInf"

text \<open>\<open>Math.max\<close> of two numbers: NaN when either is NaN, the larger one otherwise.\<close>

fun js_max :: "number \<Rightarrow> number \<Rightarrow> number" where
  "js_max NaN _ = NaN"
| "js_max _ NaN = NaN"
| "js_max PosInf _ = PosInf"
| "js_max _ PosInf = PosInf"
| "js_max NegInf y = y"
| "js_max x NegInf = x"
| "js_max (Fin a) (Fin b) = Fin (max a b)"

text \<open>A number is negative when it is below zero; NaN is not.\<close>

fun js_negative :: "number \<Rightarrow> bool" where
  "js_negative (Fin a) = (a < 0)"
| "js_negative NegInf = True"
| "js_negative _ = False"

text \<open>\<open>Number(n)\<close> for a bigint \<open>n\<close>.\<close>

definition Number_bigint :: "int \<Rightarrow> number" where
  "Number_bigint n = round_double (of_int n)"

text \<open>A value that is a number or \<open>undefined\<close>, used as a number: \<open>undefined\<close> is NaN.\<close>

definition to_number :: "number option \<Rightarrow> number" where
  "to_number v = (case v of None \<Rightarrow> NaN | Some x \<Rightarrow> x)"

section \<open>The price feed service (chainlink-price-feeds)\<close>

datatype error = Error string

record PriceData =
  symbol :: string
  price :: number
  timestamp :: number
  decimals :: number

text \<open>
  The tuple \<open>latestRoundData()\<close> returns, with the widths of its ABI:
  \<open>uint80 roundId, int256 answer, uint256 startedAt, uint256 updatedAt,
  uint80 answeredInRound\<close>.
\<close>

record RoundData =
  roundId :: "80 word"
  answer :: "256 word"
  startedAt :: "256 word"
  updatedAt :: "256 word"
  answeredInRound :: "80 word"

text \<open>
  The service and what it reads. \<open>isTestnet\<close> selects the address table. The two contract
  reads are the chain as the service sees it during one run: for the contract at an
  address, either the decoded return value or the error the call rejects with (an RPC
  failure, a revert). The cache of contract handles (\<open>contracts\<close>, filled by
  \<open>getPriceFeedContract\<close>) maps an address to the handle for that address and changes no
  result, so a handle is its address here.
\<close>

record ChainlinkPriceService =
  isTestnet :: bool
  latestRoundData :: "string \<Rightarrow> error + RoundData"
  decimals_call :: "string \<Rightarrow> error + 8 word"

definition CHAINLINK_PRICE_FEEDS :: "(string \<times> string) list" where
  "CHAINLINK_PRICE_FEEDS =
     [(''BTC/USD'', ''0xF4030086522a5bEEa4988F8cA5B36dbC97BeE88c''),
      (''ETH/USD'', ''0x5f4eC3Df9cbd43714FE2740f5E3616155c5b8419''),
      (''BNB/USD'', ''0x14e613AC84a31f709eadbdF89C6CC390fDc9540A'')]"

definition CHAINLINK_PRICE_FEEDS_SEPOLIA :: "(string \<times> string) list" where
  "CHAINLINK_PRICE_FEEDS_SEPOLIA =
     [(''BTC/USD'', ''0x1b44F3514812d835EB1BDB0acB33d3fA3351Ee43''),
      (''ETH/USD'', ''0x694AA1769357215DE4FAC081bf1f309aDC325306''),
      (''BNB/USD'', ''0x2c9972C4C4C4C4C4C4C4C4C4C4C4C4C4C4C4C4C4'')]"

text \<open>The table the constructor selects: \<open>config.isTestnet ? SEPOLIA : mainnet\<close>.\<close>

definition priceFeeds :: "ChainlinkPriceService \<Rightarrow> (string \<times> string) list" where
  "priceFeeds svc =
     (if isTestnet svc then CHAINLINK_PRICE_FEEDS_SEPOLIA else CHAINLINK_PRICE_FEEDS)"

text \<open>
  \<open>this.priceFeeds[symbol]\<close> is a property read on a plain object: besides the three
  keys of the table it finds the members every object inherits from \<open>Object.prototype\<close>.
  Such a member is truthy, so the \<open>!feedAddress\<close> test lets it pass, but it is no address:
  the contract built on it cannot be called, and the read fails inside the same \<open>try\<close>.
\<close>

definition inherited_property :: "string \<Rightarrow> bool" where
  "inherited_property name \<longleftrightarrow>
     name \<in> set [''constructor'', ''__proto__'', ''hasOwnProperty'', ''isPrototypeOf'',
       ''propertyIsEnumerable'', ''toLocaleString'', ''toString'', ''valueOf'',
       ''__defineGetter__'', ''__defineSetter__'', ''__lookupGetter__'',
       ''__lookupSetter__'']"

text \<open>
  Before a contract read is sent, ethers resolves the contract's address, and rejects a
  mixed-case address whose EIP-55 checksum is wrong (\<open>bad address checksum\<close>). Of the six
  addresses of the two tables, five carry a right checksum; the Sepolia entry for BNB/USD
  does not, so no read of it is ever sent.
\<close>

definition checksum_address :: "string \<Rightarrow> bool" where
  "checksum_address a \<longleftrightarrow>
     a \<in> set [''0xF4030086522a5bEEa4988F8cA5B36dbC97BeE88c'',
       ''0x5f4eC3Df9cbd43714FE2740f5E3616155c5b8419'',
       ''0x14e613AC84a31f709eadbdF89C6CC390fDc9540A'',
       ''0x1b44F3514812d835EB1BDB0acB33d3fA3351Ee43'',
       ''0x694AA1769357215DE4FAC081bf1f309aDC325306'']"

text \<open>
  \<open>Number(ethers.formatUnits(answer, decimals))\<close>. \<open>formatUnits\<close> writes the signed raw
  answer with the decimal point moved \<open>decimals\<close> places to the left, exactly, and throws
  when \<open>decimals\<close> is above 80; \<open>Number\<close> reads the string as the nearest double (the
  engines round every decimal string correctly; the language standard asks for that up to
  20 significant digits).
\<close>

definition formatUnits :: "256 word \<Rightarrow> 8 word \<Rightarrow> error + number" where
  "formatUnits a d =
     (if 80 < unat d then Inl (Error ''invalid FixedNumber decimals (too large)'')
      else Inr (round_double (of_int (sint a) / 10 ^ unat d)))"

text \<open>
  The \<open>catch\<close> of \<open>getPrice\<close> and of \<open>getCalculatedPrice\<close>: whatever the \<open>try\<close> block threw is
  logged and the function returns \<open>null\<close>.
\<close>

definition catch_null :: "error + 'a option \<Rightarrow> 'a option" where
  "catch_null r = (case r of Inl e \<Rightarrow> None | Inr v \<Rightarrow> v)"

text \<open>The two branches of \<open>getCalculatedPrice\<close> that pick the constituent symbols.\<close>

definition constituents :: "string \<Rightarrow> error + string \<times> string" where
  "constituents symb =
     (if symb = ''BTC/ETH'' then Inr (''BTC/USD'', ''ETH/USD'')
      else if symb = ''BNB/ETH'' then Inr (''BNB/USD'', ''ETH/USD'')
      else Inl (Error (''Unsupported calculated price symbol: '' @ symb)))"

text \<open>
  The part of \<open>getPrice\<close> after the address lookup: the two reads, awaited together, and
  the \<open>PriceData\<close> built from them.
\<close>

definition readFeed :: "ChainlinkPriceService \<Rightarrow> string \<Rightarrow> string \<Rightarrow> error + PriceData" where
  "readFeed svc symb feedAddress =
     (if \<not> checksum_address feedAddress then Inl (Error ''bad address checksum'')
      else
        (case latestRoundData svc feedAddress of
           Inl e \<Rightarrow> Inl e
         | Inr roundData \<Rightarrow>
             (case decimals_call svc feedAddress of
                Inl e \<Rightarrow> Inl e
              | Inr dec \<Rightarrow>
                  (case formatUnits (answer roundData) dec of
                     Inl e \<Rightarrow> Inl e
                   | Inr p \<Rightarrow>
                       Inr \<lparr>symbol = symb,
                            price = p,
                            timestamp =
                              js_mul (Number_bigint (uint (updatedAt roundData))) (Fin 1000),
                            decimals = Number_bigint (uint dec)\<rparr>))))"

function getPrice :: "ChainlinkPriceService \<Rightarrow> string \<Rightarrow> PriceData option"
  and getCalculatedPrice :: "ChainlinkPriceService \<Rightarrow> string \<Rightarrow> PriceData option"
where
  "getPrice svc symb = catch_null
     (if symb = ''BTC/ETH'' then Inr (getCalculatedPrice svc ''BTC/ETH'')
      else if symb = ''BNB/ETH'' then Inr (getCalculatedPrice svc ''BNB/ETH'')
      else
        (case map_of (priceFeeds svc) symb of
           None \<Rightarrow>
             (if inherited_property symb
              then Inl (Error ''unsupported addressable value'')
              else Inl (Error (''Price feed not found for '' @ symb)))
         | Some feedAddress \<Rightarrow>
             (case readFeed svc symb feedAddress of
                Inl e \<Rightarrow> Inl e
              | Inr p \<Rightarrow> Inr (Some p))))"
| "getCalculatedPrice svc symb = catch_null
     (case constituents symb of
        Inl e \<Rightarrow> Inl e
      | Inr (numeratorSymbol, denominatorSymbol) \<Rightarrow>
          (case (getPrice svc numeratorSymbol, getPrice svc denominatorSymbol) of
             (Some numeratorPrice, Some denominatorPrice) \<Rightarrow>
               Inr (Some \<lparr>symbol = symb,
                          price = js_div (price numeratorPrice) (price denominatorPrice),
                          timestamp = js_max (timestamp numeratorPrice) (timestamp denominatorPrice),
                          decimals = Fin 18\<rparr>)
           | _ \<Rightarrow> Inl (Error (''Failed to fetch prices for '' @ symb))))"
  by pat_completeness auto
termination
  by (relation "measure (\<lambda>x. case x of
        Inl (svc, symb) \<Rightarrow> (if symb = ''BTC/ETH'' \<or> symb = ''BNB/ETH'' then 2 else 0)
      | Inr (svc, symb) \<Rightarrow> 1)")
     (auto simp: constituents_def split: if_splits)

text \<open>
  \<open>getAllPrices\<close>: one \<open>getPrice\<close> per symbol of the fixed list, all awaited together, the
  \<open>null\<close> results filtered out.
\<close>

definition getAllPrices :: "ChainlinkPriceService \<Rightarrow> PriceData list" where
  "getAllPrices svc =
     (let symbols = [''BTC/USD'', ''ETH/USD'', ''BTC/ETH'', ''BNB/ETH''];
          prices = map (\<lambda>symb. getPrice svc symb) symbols
      in map the (filter (\<lambda>price. price \<noteq> None) prices))"

section \<open>The price bot (price-bot)\<close>

subsection \<open>Messages and configuration\<close>

datatype message_type = User | Price_bot

text \<open>
  A \<open>ChatMessage\<close>. The fields \<open>id\<close>, \<open>type\<close> and \<open>timestamp\<close> carry the suffix \<open>_msg\<close>
  (\<open>id\<close> is a constant of HOL, \<open>timestamp\<close> a field of \<open>PriceData\<close>); an optional field
  that is absent is \<open>None\<close>.
\<close>

record ChatMessage =
  id_msg :: string
  type_msg :: message_type
  content :: string
  timestamp_msg :: nat
  priceData :: "PriceData list option"
  senderName :: "string option"

text \<open>
  Objects that the bot shares with its callers live in a store and are named by
  references: a configuration object holds a reference to its \<open>symbols\<close> array, the bot
  holds references to its configuration object and to its \<open>Map\<close> of previous prices.
  A \<open>PriceData\<close> object is never written after it is built and stays a value.

  A field of a configuration object holds a value of its type or \<open>undefined\<close>, which is
  \<open>None\<close>: \<open>updateConfig\<close> can put \<open>undefined\<close> there.
\<close>

type_synonym ref = nat

record PriceBotConfig =
  intervalMinutes :: "number option"
  enabled :: "bool option"
  symbols :: "ref option"

text \<open>
  \<open>Partial<PriceBotConfig>\<close>: an object may lack a key, or have it; a key it has may hold
  \<open>undefined\<close> (\<open>Present None\<close>).
\<close>

datatype 'a entry = Absent | Present 'a

record PartialConfig =
  intervalMinutes_opt :: "number option entry"
  enabled_opt :: "bool option entry"
  symbols_opt :: "ref option entry"

text \<open>
  The object spread \<open>{ ...config, ...newConfig }\<close>: every key that the second object has
  is copied over the first one's, also when its value is \<open>undefined\<close>.
\<close>

definition spread :: "PriceBotConfig \<Rightarrow> PartialConfig \<Rightarrow> PriceBotConfig" where
  "spread c p =
     \<lparr>intervalMinutes =
        (case intervalMinutes_opt p of Absent \<Rightarrow> intervalMinutes c | Present v \<Rightarrow> v),
      enabled = (case enabled_opt p of Absent \<Rightarrow> enabled c | Present v \<Rightarrow> v),
      symbols = (case symbols_opt p of Absent \<Rightarrow> symbols c | Present v \<Rightarrow> v)\<rparr>"

text \<open>The test \<open>this.config.enabled\<close> in a condition: \<open>false\<close> and \<open>undefined\<close> are falsy.\<close>

definition truthy :: "bool option \<Rightarrow> bool" where
  "truthy v \<longleftrightarrow> v = Some True"

subsection \<open>The state\<close>

text \<open>
  One record holds the bot's private fields (\<open>intervalId\<close>, \<open>config\<close>, \<open>previousPrices\<close>),
  the store (configuration objects, string arrays and maps by reference, and the next
  free reference), and what the host keeps: the active \<open>setInterval\<close> timers (handle and
  delay in milliseconds as passed), the next timer handle, and the messages the registered
  \<open>messageCallback\<close> has been called with, oldest first. A \<open>Map\<close> is an association list in
  insertion order. A timer handle is truthy, so \<open>if (this.intervalId)\<close> tests for
  \<open>None\<close>.
\<close>

record system =
  intervalId :: "nat option"
  config :: ref
  previousPrices :: ref
  configs :: "ref \<Rightarrow> PriceBotConfig"
  arrays :: "ref \<Rightarrow> string list"
  maps :: "ref \<Rightarrow> (string \<times> PriceData) list"
  next_ref :: ref
  timers :: "(nat \<times> number) list"
  next_timer :: nat
  delivered :: "ChatMessage list"

text \<open>
  \<open>this.config\<close> and \<open>this.config.symbols\<close>, read through the store; the second is
  \<open>None\<close> when the field holds \<open>undefined\<close>.
\<close>

definition this_config :: "system \<Rightarrow> PriceBotConfig" where
  "this_config s = configs s (config s)"

definition this_symbols :: "system \<Rightarrow> string list option" where
  "this_symbols s =
     (case symbols (this_config s) of None \<Rightarrow> None | Some r \<Rightarrow> Some (arrays s r))"

text \<open>
  What one update cycle meets outside the bot: the outcome of
  \<open>await priceService.getAllPrices()\<close> (the list, or the error a replaced service throws),
  \<open>priceService.formatPriceMessage\<close> (its text depends on the locale and the clock, so it
  is taken as given), the four readings of \<open>Date.now()\<close> (two for a price message, two for
  an error message), and whether the registered callback throws on a message.
\<close>

record env =
  fetched :: "error + PriceData list"
  formatPriceMessage :: "PriceData list \<Rightarrow> error + string"
  now_id :: nat
  now_ts :: nat
  now_error_id :: nat
  now_error_ts :: nat
  callback_throws :: "ChatMessage \<Rightarrow> bool"

text \<open>A number in a template literal: its decimal digits.\<close>

function string_of_nat :: "nat \<Rightarrow> string" where
  "string_of_nat n =
     (if n < 10 then [''0123456789'' ! n]
      else string_of_nat (n div 10) @ [''0123456789'' ! (n mod 10)])"
  by pat_completeness auto
termination
  by (relation "measure (\<lambda>n. n)") auto

declare string_of_nat.simps [simp del]

text \<open>
  The text of the error message. Its first character is U+274C, three bytes in UTF-8.
\<close>

definition failure_text :: string where
  "failure_text =
     CHR 0xE2 # CHR 0x9D # CHR 0x8C # '' Failed to fetch latest prices. Please try again later.''"

text \<open>
  \<open>this.messageCallback(message)\<close>: the host receives the message; the call returns or
  throws.
\<close>

definition messageCallback :: "env \<Rightarrow> ChatMessage \<Rightarrow> system \<Rightarrow> (error + unit) \<times> system" where
  "messageCallback e m s =
     (if callback_throws e m then Inl (Error ''messageCallback'') else Inr (),
      s\<lparr>delivered := delivered s @ [m]\<rparr>)"

subsection \<open>The update cycle\<close>

text \<open>
  The filter of the cycle: the fetched prices whose symbol is in \<open>this.config.symbols\<close>
  (\<open>includes\<close> compares strings by value). The test runs once per fetched price, so with
  \<open>symbols\<close> holding \<open>undefined\<close> the first of them throws a \<open>TypeError\<close>, and an empty
  list is filtered without one.
\<close>

definition filteredPrices :: "system \<Rightarrow> PriceData list \<Rightarrow> error + PriceData list" where
  "filteredPrices s allPrices =
     (if allPrices = [] then Inr []
      else
        (case this_symbols s of
           None \<Rightarrow> Inl (Error ''TypeError: Cannot read properties of undefined'')
         | Some syms \<Rightarrow> Inr (filter (\<lambda>p. symbol p \<in> set syms) allPrices)))"

definition priceMessage :: "env \<Rightarrow> string \<Rightarrow> PriceData list \<Rightarrow> ChatMessage" where
  "priceMessage e text ps =
     \<lparr>id_msg = ''price-bot-'' @ string_of_nat (now_id e),
      type_msg = Price_bot,
      content = text,
      timestamp_msg = now_ts e,
      priceData = Some ps,
      senderName = Some ''Price Bot''\<rparr>"

text \<open>The \<open>try\<close> block of \<open>sendPriceUpdate\<close>: \<open>Inl\<close> is the exception it throws.\<close>

definition sendPriceUpdate_try :: "env \<Rightarrow> system \<Rightarrow> (error + unit) \<times> system" where
  "sendPriceUpdate_try e s =
     (case fetched e of
        Inl err \<Rightarrow> (Inl err, s)
      | Inr allPrices \<Rightarrow>
          (case filteredPrices s allPrices of
             Inl err \<Rightarrow> (Inl err, s)
           | Inr ps \<Rightarrow>
               if length ps = 0 then (Inr (), s)
               else
                 (case formatPriceMessage e ps of
                    Inl err \<Rightarrow> (Inl err, s)
                  | Inr text \<Rightarrow>
                      (let message = priceMessage e text ps;
                           s1 = s\<lparr>maps := (maps s)(previousPrices s :=
                                  fold (\<lambda>p m. AList.update (symbol p) p m) ps
                                    (maps s (previousPrices s)))\<rparr>
                       in messageCallback e message s1))))"

definition errorMessage :: "env \<Rightarrow> ChatMessage" where
  "errorMessage e =
     \<lparr>id_msg = ''price-bot-error-'' @ string_of_nat (now_error_id e),
      type_msg = Price_bot,
      content = failure_text,
      timestamp_msg = now_error_ts e,
      priceData = None,
      senderName = Some ''Price Bot''\<rparr>"

text \<open>
  \<open>sendPriceUpdate\<close>: the \<open>try\<close> block, and on an exception the \<open>catch\<close> block, which calls
  the callback with the error message. \<open>Inl\<close> in the result is the exception that leaves
  the \<open>catch\<close> block: the promise of the \<open>async\<close> function rejects with it. A cycle is one
  step of the model: its \<open>await\<close> is not a point where another call comes in between.
\<close>

definition sendPriceUpdate :: "env \<Rightarrow> system \<Rightarrow> (error + unit) \<times> system" where
  "sendPriceUpdate e s =
     (case sendPriceUpdate_try e s of
        (Inr u, s1) \<Rightarrow> (Inr u, s1)
      | (Inl err, s1) \<Rightarrow> messageCallback e (errorMessage e) s1)"

subsection \<open>The methods\<close>

definition stop :: "system \<Rightarrow> system" where
  "stop s =
     (case intervalId s of
        Some h \<Rightarrow> s\<lparr>timers := filter (\<lambda>t. fst t \<noteq> h) (timers s), intervalId := None\<rparr>
      | None \<Rightarrow> s)"

text \<open>The delay handed to \<open>setInterval\<close>: \<open>this.config.intervalMinutes * 60 * 1000\<close>.\<close>

definition interval_delay :: "PriceBotConfig \<Rightarrow> number" where
  "interval_delay c = js_mul (js_mul (to_number (intervalMinutes c)) (Fin 60)) (Fin 1000)"

text \<open>
  \<open>start\<close> calls \<open>sendPriceUpdate\<close> without awaiting it: a rejection of that promise does
  not reach \<open>start\<close>, which goes on to arm the timer.
\<close>

definition start :: "env \<Rightarrow> system \<Rightarrow> system" where
  "start e s =
     (let s1 = (if intervalId s \<noteq> None then stop s else s) in
      if \<not> truthy (enabled (this_config s1)) then s1
      else
        (let s2 = snd (sendPriceUpdate e s1) in
         s2\<lparr>intervalId := Some (next_timer s2),
            timers := timers s2 @ [(next_timer s2, interval_delay (this_config s2))],
            next_timer := next_timer s2 + 1\<rparr>))"

text \<open>
  The assignment \<open>this.config = { ... }\<close>: the object literal is a new object, and the bot
  holds its reference from then on.
\<close>

definition assign_config :: "PriceBotConfig \<Rightarrow> system \<Rightarrow> system" where
  "assign_config c s =
     s\<lparr>configs := (configs s)(next_ref s := c), config := next_ref s,
       next_ref := next_ref s + 1\<rparr>"

definition updateConfig :: "env \<Rightarrow> PartialConfig \<Rightarrow> system \<Rightarrow> system" where
  "updateConfig e newConfig s =
     (let s1 = assign_config (spread (this_config s) newConfig) s in
      if truthy (enabled (this_config s1)) \<and> intervalId s1 = None then start e s1
      else if \<not> truthy (enabled (this_config s1)) \<and> intervalId s1 \<noteq> None then stop s1
      else s1)"

definition getPreviousPrices :: "system \<Rightarrow> ref \<times> system" where
  "getPreviousPrices s =
     (next_ref s,
      s\<lparr>maps := (maps s)(next_ref s := maps s (previousPrices s)),
        next_ref := next_ref s + 1\<rparr>)"

definition isRunning :: "system \<Rightarrow> bool" where
  "isRunning s \<longleftrightarrow> intervalId s \<noteq> None"

definition getConfig :: "system \<Rightarrow> ref \<times> system" where
  "getConfig s =
     (next_ref s,
      s\<lparr>configs := (configs s)(next_ref s := this_config s),
        next_ref := next_ref s + 1\<rparr>)"

definition triggerManualUpdate :: "env \<Rightarrow> system \<Rightarrow> (error + unit) \<times> system" where
  "triggerManualUpdate e s = sendPriceUpdate e s"

text \<open>
  The host fires the timer with handle \<open>h\<close>: if it is still active, its function
  \<open>() => { this.sendPriceUpdate() }\<close> runs; a rejection is not awaited. \<open>advance\<close> lets every
  timer that is active fire once.
\<close>

definition fire :: "env \<Rightarrow> nat \<Rightarrow> system \<Rightarrow> system" where
  "fire e h s = (if h \<in> fst ` set (timers s) then snd (sendPriceUpdate e s) else s)"

definition advance :: "env \<Rightarrow> system \<Rightarrow> system" where
  "advance e s = fold (fire e) (map fst (timers s)) s"

text \<open>
  \<open>new PriceBot(config, messageCallback)\<close> on an empty store, for a configuration object
  written as a literal: the object is at reference 0, its \<open>symbols\<close> array at 1, the
  bot's own \<open>Map\<close> at 2. The constructor keeps the reference to the object it is given.
\<close>

definition new_PriceBot :: "number \<Rightarrow> bool \<Rightarrow> string list \<Rightarrow> system" where
  "new_PriceBot minutes en syms =
     \<lparr>intervalId = None,
      config = 0,
      previousPrices = 2,
      configs = (\<lambda>r. \<lparr>intervalMinutes = Some minutes, enabled = Some en, symbols = Some 1\<rparr>),
      arrays = (\<lambda>r. if r = 1 then syms else []),
      maps = (\<lambda>r. []),
      next_ref = 3,
      timers = [],
      next_timer = 1,
      delivered = []\<rparr>"

text \<open>\<open>createPriceBot\<close>: a bot on \<open>defaultPriceBotConfig\<close>.\<close>

definition createPriceBot :: system where
  "createPriceBot =
     new_PriceBot (Fin 5) True [''BTC/USD'', ''ETH/USD'', ''BTC/ETH'', ''BNB/ETH'']"

subsection \<open>Callers\<close>

text \<open>
  What a caller does with a reference it holds: it assigns the fields of a configuration
  object, changes an array in place (\<open>push\<close>, \<open>pop\<close>, \<open>length = 0\<close>), or changes a \<open>Map\<close>
  (\<open>set\<close>, \<open>delete\<close>, \<open>clear\<close>). Each is the new content of the object at that reference.
\<close>

definition write_config :: "ref \<Rightarrow> PriceBotConfig \<Rightarrow> system \<Rightarrow> system" where
  "write_config r c s = s\<lparr>configs := (configs s)(r := c)\<rparr>"

definition write_array :: "ref \<Rightarrow> string list \<Rightarrow> system \<Rightarrow> system" where
  "write_array r xs s = s\<lparr>arrays := (arrays s)(r := xs)\<rparr>"

definition write_map :: "ref \<Rightarrow> (string \<times> PriceData) list \<Rightarrow> system \<Rightarrow> system" where
  "write_map r m s = s\<lparr>maps := (maps s)(r := m)\<rparr>"

text \<open>
  The calls that drive a bot: its public methods, and the host firing a timer. A state is
  reachable when a list of calls leads to it from a freshly constructed bot.
\<close>

datatype call =
    Start env
  | Stop
  | UpdateConfig env PartialConfig
  | TriggerManualUpdate env
  | Fire env nat
  | GetConfig
  | GetPreviousPrices

fun perform :: "call \<Rightarrow> system \<Rightarrow> system" where
  "perform (Start e) s = start e s"
| "perform Stop s = stop s"
| "perform (UpdateConfig e p) s = updateConfig e p s"
| "perform (TriggerManualUpdate e) s = snd (triggerManualUpdate e s)"
| "perform (Fire e h) s = fire e h s"
| "perform GetConfig s = snd (getConfig s)"
| "perform GetPreviousPrices s = snd (getPreviousPrices s)"

definition run :: "call list \<Rightarrow> system \<Rightarrow> system" where
  "run cs s = fold perform cs s"

text \<open>
  The timer held by the bot is the only active one, and a disabled bot holds none.
\<close>

definition timer_inv :: "system \<Rightarrow> bool" where
  "timer_inv s \<longleftrightarrow>
     map fst (timers s) = (case intervalId s of None \<Rightarrow> [] | Some h \<Rightarrow> [h]) \<and>
     (truthy (enabled (this_config s)) \<or> intervalId s = None)"

text \<open>The bot's own objects are allocated: their references are below the next free one.\<close>

definition store_inv :: "system \<Rightarrow> bool" where
  "store_inv s \<longleftrightarrow> config s < next_ref s \<and> previousPrices s < next_ref s"

subsection \<open>Example inputs\<close>

definition example_round :: "256 word \<Rightarrow> 256 word \<Rightarrow> RoundData" where
  "example_round a u =
     \<lparr>roundId = 1, answer = a, startedAt = u, updatedAt = u, answeredInRound = 1\<rparr>"

text \<open>
  The test network, as the default service is configured, with every contract answering:
  BTC/USD 45123.45 and ETH/USD 2500 with 8 decimals. The read of BNB/USD is never sent,
  its address has a wrong checksum.
\<close>

definition example_service :: ChainlinkPriceService where
  "example_service =
     \<lparr>isTestnet = True,
      latestRoundData = (\<lambda>a.
        if a = ''0x1b44F3514812d835EB1BDB0acB33d3fA3351Ee43''
        then Inr (example_round 4512345000000 1700000000)
        else if a = ''0x694AA1769357215DE4FAC081bf1f309aDC325306''
        then Inr (example_round 250000000000 1700000010)
        else Inr (example_round 60000000000 1700000020)),
      decimals_call = (\<lambda>a. Inr 8)\<rparr>"

text \<open>
  The main network with the same answers at its own addresses, a network on which every
  read of round data fails, one whose feeds report 81 decimals, and one whose feeds
  answer \<open>2^53 + 1\<close> with no decimals.
\<close>

definition example_service_all :: ChainlinkPriceService where
  "example_service_all =
     \<lparr>isTestnet = False,
      latestRoundData = (\<lambda>a.
        if a = ''0xF4030086522a5bEEa4988F8cA5B36dbC97BeE88c''
        then Inr (example_round 4512345000000 1700000000)
        else if a = ''0x5f4eC3Df9cbd43714FE2740f5E3616155c5b8419''
        then Inr (example_round 250000000000 1700000010)
        else Inr (example_round 60000000000 1700000020)),
      decimals_call = (\<lambda>a. Inr 8)\<rparr>"

definition example_service_down :: ChainlinkPriceService where
  "example_service_down =
     example_service\<lparr>latestRoundData := (\<lambda>a. Inl (Error ''network error''))\<rparr>"

definition example_service_wide :: ChainlinkPriceService where
  "example_service_wide = example_service\<lparr>decimals_call := (\<lambda>a. Inr 81)\<rparr>"

definition example_service_odd :: ChainlinkPriceService where
  "example_service_odd =
     \<lparr>isTestnet = False,
      latestRoundData = (\<lambda>a. Inr (example_round 9007199254740993 1700000000)),
      decimals_call = (\<lambda>a. Inr 0)\<rparr>"

text \<open>
  The prices fetched on the example networks: 45123.45 and 45123.45 / 2500 are no
  doubles, the prices are the doubles next to them.
\<close>

definition example_btc :: PriceData where
  "example_btc =
     \<lparr>symbol = ''BTC/USD'', price = Fin (3100859872523059 / 68719476736),
      timestamp = Fin 1700000000000, decimals = Fin 8\<rparr>"

definition example_eth :: PriceData where
  "example_eth =
     \<lparr>symbol = ''ETH/USD'', price = Fin 2500, timestamp = Fin 1700000010000,
      decimals = Fin 8\<rparr>"

definition example_btc_eth :: PriceData where
  "example_btc_eth =
     \<lparr>symbol = ''BTC/ETH'', price = Fin (1270112203785445 / 70368744177664),
      timestamp = Fin 1700000010000, decimals = Fin 18\<rparr>"

text \<open>
  An update cycle's surroundings with a given fetch outcome and a callback that throws
  on the messages of a given predicate.
\<close>

definition example_env :: "error + PriceData list \<Rightarrow> (ChatMessage \<Rightarrow> bool) \<Rightarrow> env" where
  "example_env f throws =
     \<lparr>fetched = f,
      formatPriceMessage = (\<lambda>ps. Inr ''Crypto Price Update''),
      now_id = 7, now_ts = 7, now_error_id = 8, now_error_ts = 8,
      callback_throws = throws\<rparr>"

definition example_message :: "PriceData list \<Rightarrow> ChatMessage" where
  "example_message ps =
     \<lparr>id_msg = ''price-bot-7'', type_msg = Price_bot, content = ''Crypto Price Update'',
      timestamp_msg = 7, priceData = Some ps, senderName = Some ''Price Bot''\<rparr>"

text \<open>
  A cycle's surroundings in which the fetch returns no price and the callback never
  throws, and the default bot after \<open>start\<close> in them.
\<close>

definition example_quiet :: env where
  "example_quiet = example_env (Inr []) (\<lambda>m. False)"

definition example_started :: system where
  "example_started = start example_quiet createPriceBot"

text \<open>
  A bot configured for BTC/USD alone, and the state after a caller has run
  \<open>bot.getConfig().symbols.length = 0\<close>: the copy is taken, and the array that the copy's
  \<open>symbols\<close> field refers to is emptied in place.
\<close>

definition example_single :: system where
  "example_single = new_PriceBot (Fin 5) True [''BTC/USD'']"

definition example_emptied :: system where
  "example_emptied =
     (let (r, s) = getConfig example_single
      in case symbols (configs s r) of None \<Rightarrow> s | Some a \<Rightarrow> write_array a [] s)"

text \<open>The three partial configurations of the examples, and one with \<open>enabled: undefined\<close>.\<close>

definition example_disable :: PartialConfig where
  "example_disable =
     \<lparr>intervalMinutes_opt = Absent, enabled_opt = Present (Some False), symbols_opt = Absent\<rparr>"

definition example_enable :: PartialConfig where
  "example_enable =
     \<lparr>intervalMinutes_opt = Absent, enabled_opt = Present (Some True), symbols_opt = Absent\<rparr>"

definition example_one_minute :: PartialConfig where
  "example_one_minute =
     \<lparr>intervalMinutes_opt = Present (Some (Fin 1)), enabled_opt = Absent, symbols_opt = Absent\<rparr>"

definition example_undefined :: PartialConfig where
  "example_undefined =
     \<lparr>intervalMinutes_opt = Absent, enabled_opt = Present None, symbols_opt = Absent\<rparr>"

declare getPrice.simps [simp del] getCalculatedPrice.simps [simp del]

section \<open>Numbers: results\<close>

subsection \<open>Binary digits and exponents\<close>

lemma bit_length_0: "bit_length 0 = 0"
  by (simp add: bit_length.simps)

lemma bit_length_pos: "0 < n \<Longrightarrow> bit_length n = Suc (bit_length (n div 2))"
  by (subst bit_length.simps) simp

lemma bit_length_bounds: "0 < n \<Longrightarrow> 2 ^ (bit_length n - 1) \<le> n \<and> n < 2 ^ bit_length n"
proof (induction n rule: bit_length.induct)
  case (1 n)
  show ?case
  proof (cases "n div 2 = 0")
    case True
    with "1.prems" have "n = 1" by (simp add: div_eq_0_iff)
    then show ?thesis by (simp add: bit_length_pos bit_length_0)
  next
    case False
    then have h: "0 < n div 2" by simp
    with "1.IH" "1.prems" have ih: "2 ^ (bit_length (n div 2) - 1) \<le> n div 2"
      "n div 2 < 2 ^ bit_length (n div 2)" by simp_all
    from h obtain m where m: "bit_length (n div 2) = Suc m"
      by (simp add: bit_length_pos)
    have bn: "bit_length n = Suc (Suc m)"
      using "1.prems" m by (simp add: bit_length_pos)
    from ih m have lo: "(2::nat) ^ m \<le> n div 2" and hi: "n div 2 < 2 * 2 ^ m"
      by simp_all
    have "2 * (n div 2) \<le> n" by simp
    with lo have l: "2 * 2 ^ m \<le> n" by linarith
    have "n < 2 * (n div 2) + 2" by presburger
    with hi have u: "n < 2 * (2 * 2 ^ m)" by linarith
    from l u show ?thesis by (simp add: bn)
  qed
qed

lemma pow2_nat: "pow2 (int n) = 2 ^ n"
  by (simp add: pow2_def)

lemma pow2_neg_nat: "pow2 (- int n) = 1 / 2 ^ n"
  by (auto simp: pow2_def)

lemma pow2_pos: "0 < pow2 e"
  by (simp add: pow2_def)

lemma pow2_add: "pow2 (a + b) = pow2 a * pow2 b"
proof -
  have "pow2 e = 2 powi e" for e
    by (simp add: pow2_def power_int_def inverse_eq_divide power_one_over)
  then show ?thesis by (simp add: power_int_add)
qed

lemma pow2_mono: "a \<le> b \<Longrightarrow> pow2 a \<le> pow2 b"
proof -
  assume "a \<le> b"
  then obtain k where b: "b = a + int k" by (metis zle_iff_zadd)
  have "(1::rat) \<le> 2 ^ k" by simp
  then have "pow2 a * 1 \<le> pow2 a * 2 ^ k"
    using pow2_pos [of a] by (intro mult_left_mono) simp_all
  then show ?thesis by (simp add: b pow2_add pow2_nat)
qed

lemma exponent_ge1:
  assumes "1 \<le> a"
  obtains m where "exponent a = int m" and "bit_length (nat \<lfloor>a\<rfloor>) = Suc m"
proof -
  from assms have "0 < nat \<lfloor>a\<rfloor>" by simp
  then obtain m where m: "bit_length (nat \<lfloor>a\<rfloor>) = Suc m"
    by (simp add: bit_length_pos)
  with assms have "exponent a = int m" by (simp add: exponent_def)
  with m show ?thesis by (rule that [rotated])
qed

lemma exponent_lt1:
  assumes "0 < a" and "a < 1"
  obtains m where "exponent a = - int (Suc m)" and "bit_length (nat (\<lceil>1 / a\<rceil> - 1)) = Suc m"
    and "0 < nat (\<lceil>1 / a\<rceil> - 1)" and "2 \<le> \<lceil>1 / a\<rceil>"
proof -
  from assms have "1 < 1 / a" by simp
  then have k: "2 \<le> \<lceil>1 / a\<rceil>" by (simp add: le_ceiling_iff)
  then have n: "0 < nat (\<lceil>1 / a\<rceil> - 1)" by simp
  then obtain m where m: "bit_length (nat (\<lceil>1 / a\<rceil> - 1)) = Suc m"
    by (simp add: bit_length_pos)
  with assms have "exponent a = - int (Suc m)" by (simp add: exponent_def)
  then show ?thesis using m n k by (rule that)
qed

text \<open>The exponent is the one of the definition's comment: \<open>2^e \<le> a < 2^(e+1)\<close>.\<close>

lemma exponent_lower:
  assumes "0 < a"
  shows "pow2 (exponent a) \<le> a"
proof (cases "1 \<le> a")
  case True
  then obtain m where e: "exponent a = int m" and b: "bit_length (nat \<lfloor>a\<rfloor>) = Suc m"
    by (rule exponent_ge1)
  from True have n: "0 < nat \<lfloor>a\<rfloor>" by simp
  from bit_length_bounds [OF n] b have "2 ^ m \<le> nat \<lfloor>a\<rfloor>" by simp
  then have "(of_nat (2 ^ m) :: rat) \<le> of_nat (nat \<lfloor>a\<rfloor>)"
    by (simp only: of_nat_le_iff)
  then have "(2::rat) ^ m \<le> of_int \<lfloor>a\<rfloor>" using True by simp
  also have "\<dots> \<le> a" by simp
  finally show ?thesis by (simp add: e pow2_nat)
next
  case False
  with assms have lt: "a < 1" by simp
  from assms lt obtain m where e: "exponent a = - int (Suc m)"
    and b: "bit_length (nat (\<lceil>1 / a\<rceil> - 1)) = Suc m" and n: "0 < nat (\<lceil>1 / a\<rceil> - 1)"
    and k: "2 \<le> \<lceil>1 / a\<rceil>"
    by (rule exponent_lt1)
  from bit_length_bounds [OF n] b have "Suc (nat (\<lceil>1 / a\<rceil> - 1)) \<le> 2 ^ Suc m" by simp
  then have "(of_nat (Suc (nat (\<lceil>1 / a\<rceil> - 1))) :: rat) \<le> of_nat (2 ^ Suc m)"
    by (simp only: of_nat_le_iff)
  moreover have "(of_nat (Suc (nat (\<lceil>1 / a\<rceil> - 1))) :: rat) = of_int \<lceil>1 / a\<rceil>"
  proof -
    from k have "0 \<le> \<lceil>1 / a\<rceil> - 1" by linarith
    then have "(of_nat (nat (\<lceil>1 / a\<rceil> - 1)) :: rat) = of_int (\<lceil>1 / a\<rceil> - 1)"
      by (rule of_nat_nat)
    then show ?thesis by simp
  qed
  ultimately have "(of_int \<lceil>1 / a\<rceil> :: rat) \<le> 2 ^ Suc m" by simp
  moreover have "1 / a \<le> of_int \<lceil>1 / a\<rceil>" by (rule le_of_int_ceiling)
  ultimately have "1 / a \<le> 2 ^ Suc m" by (rule order_trans [rotated])
  then have "1 \<le> 2 ^ Suc m * a" using assms by (simp add: pos_divide_le_eq)
  then have "1 / 2 ^ Suc m \<le> a" by (simp add: pos_divide_le_eq mult.commute)
  then show ?thesis by (simp only: e pow2_neg_nat)
qed

lemma exponent_upper:
  assumes "0 < a"
  shows "a < pow2 (exponent a + 1)"
proof (cases "1 \<le> a")
  case True
  then obtain m where e: "exponent a = int m" and b: "bit_length (nat \<lfloor>a\<rfloor>) = Suc m"
    by (rule exponent_ge1)
  from True have n: "0 < nat \<lfloor>a\<rfloor>" by simp
  from bit_length_bounds [OF n] b have "Suc (nat \<lfloor>a\<rfloor>) \<le> 2 ^ Suc m" by simp
  then have "(of_nat (Suc (nat \<lfloor>a\<rfloor>)) :: rat) \<le> of_nat (2 ^ Suc m)"
    by (simp only: of_nat_le_iff)
  moreover have "(of_nat (Suc (nat \<lfloor>a\<rfloor>)) :: rat) = of_int \<lfloor>a\<rfloor> + 1"
    using True by simp
  ultimately have "of_int \<lfloor>a\<rfloor> + 1 \<le> (2::rat) ^ Suc m" by simp
  moreover have "a < of_int \<lfloor>a\<rfloor> + 1" using floor_correct [of a] by simp
  ultimately have "a < 2 ^ Suc m" by (rule less_le_trans [rotated])
  moreover have "exponent a + 1 = int (Suc m)" by (simp add: e)
  ultimately show ?thesis by (simp only: pow2_nat)
next
  case False
  with assms have lt: "a < 1" by simp
  from assms lt obtain m where e: "exponent a = - int (Suc m)"
    and b: "bit_length (nat (\<lceil>1 / a\<rceil> - 1)) = Suc m" and n: "0 < nat (\<lceil>1 / a\<rceil> - 1)"
    and k: "2 \<le> \<lceil>1 / a\<rceil>"
    by (rule exponent_lt1)
  from bit_length_bounds [OF n] b have "2 ^ m \<le> nat (\<lceil>1 / a\<rceil> - 1)" by simp
  then have "(of_nat (2 ^ m) :: rat) \<le> of_nat (nat (\<lceil>1 / a\<rceil> - 1))"
    by (simp only: of_nat_le_iff)
  moreover have "(of_nat (nat (\<lceil>1 / a\<rceil> - 1)) :: rat) = of_int \<lceil>1 / a\<rceil> - 1"
  proof -
    from k have "0 \<le> \<lceil>1 / a\<rceil> - 1" by linarith
    then have "(of_nat (nat (\<lceil>1 / a\<rceil> - 1)) :: rat) = of_int (\<lceil>1 / a\<rceil> - 1)"
      by (rule of_nat_nat)
    then show ?thesis by simp
  qed
  ultimately have "(2::rat) ^ m \<le> of_int \<lceil>1 / a\<rceil> - 1" by simp
  moreover have "of_int \<lceil>1 / a\<rceil> - 1 < 1 / a"
    using ceiling_correct [of "1 / a"] by simp
  ultimately have "2 ^ m < 1 / a" by (rule le_less_trans)
  then have "2 ^ m * a < 1" using assms by (simp add: pos_less_divide_eq)
  then have "a < 1 / 2 ^ m" by (simp add: pos_less_divide_eq mult.commute)
  moreover have "exponent a + 1 = - int m" by (simp add: e)
  ultimately show ?thesis by (simp only: pow2_neg_nat)
qed

subsection \<open>Rounding\<close>

lemma round_half_even_error: "\<bar>of_int (round_half_even m) - m\<bar> \<le> 1 / 2"
proof -
  have "of_int \<lfloor>m\<rfloor> \<le> m" and "m < of_int \<lfloor>m\<rfloor> + 1"
    using floor_correct [of m] by simp_all
  then show ?thesis
    by (auto simp: round_half_even_def Let_def abs_le_iff)
qed

lemma round_half_even_nonneg: "0 \<le> m \<Longrightarrow> 0 \<le> round_half_even m"
proof -
  assume "0 \<le> m"
  then have "0 \<le> \<lfloor>m\<rfloor>" by simp
  then show ?thesis by (auto simp: round_half_even_def Let_def)
qed

lemma round_half_even_int: "round_half_even (of_int k) = k"
  by (simp add: round_half_even_def)

lemma round_half_even_le:
  assumes "m \<le> of_int k"
  shows "round_half_even m \<le> k"
proof -
  have "round_half_even m \<le> \<lfloor>m\<rfloor> + 1" by (simp add: round_half_even_def Let_def)
  show ?thesis
  proof (cases "m = of_int k")
    case True
    then show ?thesis by (simp add: round_half_even_int)
  next
    case False
    with assms have "m < of_int k" by simp
    then have "\<lfloor>m\<rfloor> < k" by (simp add: floor_less_iff)
    with \<open>round_half_even m \<le> \<lfloor>m\<rfloor> + 1\<close> show ?thesis by simp
  qed
qed

text \<open>
  What rounding a positive rational gives: a multiple of the quantum, half a quantum away
  at most.
\<close>

lemma round_positive_cases:
  assumes "0 < a"
  obtains r where "round_positive a = (if pow2 1024 \<le> r then PosInf else Fin r)"
    and "\<bar>r - a\<bar> \<le> pow2 (max (exponent a) (- 1022) - 52) / 2"
    and "0 \<le> r"
proof -
  let ?q = "pow2 (max (exponent a) (- 1022) - 52)"
  let ?n = "round_half_even (a / ?q)"
  let ?r = "of_int ?n * ?q"
  have q: "0 < ?q" by (rule pow2_pos)
  have "\<bar>of_int ?n - a / ?q\<bar> \<le> 1 / 2" by (rule round_half_even_error)
  then have "\<bar>of_int ?n - a / ?q\<bar> * ?q \<le> 1 / 2 * ?q"
    using q by (intro mult_right_mono) simp_all
  moreover have "\<bar>of_int ?n - a / ?q\<bar> * ?q = \<bar>?r - a\<bar>"
  proof -
    have "\<bar>of_int ?n - a / ?q\<bar> * ?q = \<bar>(of_int ?n - a / ?q) * ?q\<bar>"
      using q by (simp add: abs_mult)
    also have "(of_int ?n - a / ?q) * ?q = ?r - a"
      using q by (simp add: algebra_simps)
    finally show ?thesis .
  qed
  ultimately have e: "\<bar>?r - a\<bar> \<le> ?q / 2" by simp
  have "0 \<le> a / ?q" using assms q by simp
  then have "0 \<le> ?n" by (rule round_half_even_nonneg)
  then have n: "0 \<le> ?r" using q by simp
  have "round_positive a = (if pow2 1024 \<le> ?r then PosInf else Fin ?r)"
    by (simp add: round_positive_def Let_def)
  then show ?thesis using e n by (rule that)
qed

lemma exponent_normal:
  assumes "pow2 (- 1022) \<le> a"
  shows "- 1022 \<le> exponent a"
proof (rule ccontr)
  assume "\<not> - 1022 \<le> exponent a"
  then have "exponent a + 1 \<le> - 1022" by simp
  then have "pow2 (exponent a + 1) \<le> pow2 (- 1022)" by (rule pow2_mono)
  moreover have "0 < a" using assms pow2_pos [of "- 1022"] by simp
  then have "a < pow2 (exponent a + 1)" by (rule exponent_upper)
  ultimately show False using assms by simp
qed

lemma quantum_small:
  assumes "pow2 (- 1022) \<le> a"
  shows "pow2 (max (exponent a) (- 1022) - 52) / 2 \<le> a / 2 ^ 53"
proof -
  have p: "0 < a" using assms pow2_pos [of "- 1022"] by simp
  have "max (exponent a) (- 1022) = exponent a"
    using exponent_normal [OF assms] by simp
  then have "pow2 (max (exponent a) (- 1022) - 52) = pow2 (exponent a + - 52)" by simp
  also have "\<dots> = pow2 (exponent a) * pow2 (- 52)" by (rule pow2_add)
  also have "pow2 (- 52) = 1 / 2 ^ 52" by (simp add: pow2_def)
  finally have "pow2 (max (exponent a) (- 1022) - 52) = pow2 (exponent a) / 2 ^ 52" by simp
  moreover have "pow2 (exponent a) \<le> a" using p by (rule exponent_lower)
  ultimately show ?thesis by (simp add: field_simps)
qed

text \<open>
  In the range of the normal doubles the result is finite and within a relative error of
  \<open>2^(-53)\<close>.
\<close>

lemma round_positive_normal:
  assumes "pow2 (- 1022) \<le> a" and "a \<le> pow2 1000"
  obtains r where "round_positive a = Fin r" and "\<bar>r - a\<bar> \<le> a / 2 ^ 53" and "0 \<le> r"
proof -
  have p: "0 < a" using assms(1) pow2_pos [of "- 1022"] by simp
  from p obtain r where c: "round_positive a = (if pow2 1024 \<le> r then PosInf else Fin r)"
    and e: "\<bar>r - a\<bar> \<le> pow2 (max (exponent a) (- 1022) - 52) / 2" and n: "0 \<le> r"
    by (rule round_positive_cases)
  from e quantum_small [OF assms(1)] have b: "\<bar>r - a\<bar> \<le> a / 2 ^ 53" by simp
  have "a / 2 ^ 53 \<le> a" using p by (simp add: field_simps)
  moreover have "r - a \<le> \<bar>r - a\<bar>" by simp
  ultimately have "r \<le> 2 * a" using b by linarith
  also have "\<dots> \<le> 2 * pow2 1000" using assms(2) by simp
  also have "\<dots> < pow2 1024" by (simp add: pow2_def)
  finally have "\<not> pow2 1024 \<le> r" by simp
  with c have "round_positive a = Fin r" by simp
  then show ?thesis using b n by (rule that)
qed

lemma round_double_zero: "round_double 0 = Fin 0"
  by (simp add: round_double_def)

lemma round_double_normal:
  assumes "pow2 (- 1022) \<le> \<bar>x\<bar>" and "\<bar>x\<bar> \<le> pow2 1000"
  obtains r where "round_double x = Fin r" and "\<bar>r - x\<bar> \<le> \<bar>x\<bar> / 2 ^ 53"
    and "0 \<le> x \<longrightarrow> 0 \<le> r" and "x \<le> 0 \<longrightarrow> r \<le> 0"
proof (cases "0 < x")
  case True
  with assms have "pow2 (- 1022) \<le> x" "x \<le> pow2 1000" by simp_all
  then obtain r where "round_positive x = Fin r" "\<bar>r - x\<bar> \<le> x / 2 ^ 53" "0 \<le> r"
    by (rule round_positive_normal)
  with True have "round_double x = Fin r" "\<bar>r - x\<bar> \<le> \<bar>x\<bar> / 2 ^ 53"
    "0 \<le> x \<longrightarrow> 0 \<le> r" "x \<le> 0 \<longrightarrow> r \<le> 0"
    by (simp_all add: round_double_def)
  then show ?thesis by (rule that)
next
  case False
  have "0 < pow2 (- 1022)" by (rule pow2_pos)
  with assms(1) False have neg: "x < 0" by (cases "x = 0") simp_all
  with assms have "pow2 (- 1022) \<le> - x" "- x \<le> pow2 1000" by simp_all
  then obtain r where r: "round_positive (- x) = Fin r" "\<bar>r - (- x)\<bar> \<le> (- x) / 2 ^ 53" "0 \<le> r"
    by (rule round_positive_normal)
  have "\<bar>- r - x\<bar> = \<bar>r - (- x)\<bar>" by (simp add: abs_minus_commute)
  with r neg have "round_double x = Fin (- r)" "\<bar>- r - x\<bar> \<le> \<bar>x\<bar> / 2 ^ 53"
    "0 \<le> x \<longrightarrow> 0 \<le> - r" "x \<le> 0 \<longrightarrow> - r \<le> 0"
    by (simp_all add: round_double_def)
  then show ?thesis by (rule that)
qed

lemma round_double_nonneg: "0 \<le> x \<Longrightarrow> \<not> js_negative (round_double x)"
proof (cases "x = 0")
  case True
  then show ?thesis by (simp add: round_double_def)
next
  case False
  assume "0 \<le> x"
  with False have p: "0 < x" by simp
  then obtain r where "round_positive x = (if pow2 1024 \<le> r then PosInf else Fin r)"
    and "0 \<le> r"
    by (rule round_positive_cases)
  with p show ?thesis by (simp add: round_double_def)
qed

text \<open>An integer below \<open>2^53\<close> is a double.\<close>

lemma round_double_int:
  assumes "\<bar>k\<bar> < 2 ^ 53"
  shows "round_double (of_int k) = Fin (of_int k)"
proof -
  have pos: "round_positive (of_int j) = Fin (of_int j)" if j: "0 < j" "j < 2 ^ 53" for j :: int
  proof -
    let ?a = "of_int j :: rat"
    from j have one: "1 \<le> ?a" by simp
    then obtain m where e: "exponent ?a = int m" and b: "bit_length (nat \<lfloor>?a\<rfloor>) = Suc m"
      by (rule exponent_ge1)
    have fl: "nat \<lfloor>?a\<rfloor> = nat j" by simp
    from j have nj: "0 < nat j" by simp
    from bit_length_bounds [OF nj] b fl have "2 ^ m \<le> nat j" by simp
    moreover from j have "nat j < 2 ^ 53" by (simp add: nat_less_iff)
    ultimately have "(2::nat) ^ m < 2 ^ 53" by (rule le_less_trans)
    then have m: "m < 53" by (rule power_less_imp_less_exp [rotated]) simp
    then have "max (exponent ?a) (- 1022) - 52 = - int (52 - m)"
      by (simp add: e)
    then have q: "pow2 (max (exponent ?a) (- 1022) - 52) = 1 / 2 ^ (52 - m)"
      by (simp only: pow2_neg_nat)
    have "?a / (1 / 2 ^ (52 - m)) = of_int (j * 2 ^ (52 - m))" by simp
    then have "round_half_even (?a / (1 / 2 ^ (52 - m))) = j * 2 ^ (52 - m)"
      by (simp only: round_half_even_int)
    then have r: "of_int (round_half_even (?a / (1 / 2 ^ (52 - m)))) * (1 / 2 ^ (52 - m)) = ?a"
      by simp
    have "?a < 2 ^ 53" using j by (simp add: of_int_less_numeral_power_cancel_iff)
    also have "(2::rat) ^ 53 \<le> pow2 1024" by (simp add: pow2_def)
    finally have "\<not> pow2 1024 \<le> ?a" by simp
    then show ?thesis unfolding round_positive_def Let_def q r by simp
  qed
  show ?thesis
  proof (cases "k = 0")
    case True
    then show ?thesis by (simp add: round_double_def)
  next
    case False
    show ?thesis
    proof (cases "0 < k")
      case True
      with assms have "round_positive (of_int k) = Fin (of_int k)" by (intro pos) simp_all
      with True show ?thesis by (simp add: round_double_def)
    next
      case n: False
      with False assms have "0 < - k" "- k < 2 ^ 53" by simp_all
      then have "round_positive (of_int (- k)) = Fin (of_int (- k))" by (rule pos)
      with n False show ?thesis by (simp add: round_double_def)
    qed
  qed
qed

subsection \<open>Evaluating a rounding\<close>

lemma floor_rat_numeral: "\<lfloor>numeral a / numeral b :: rat\<rfloor> = numeral a div numeral b"
  using floor_divide_of_int_eq [of "numeral a" "numeral b", where ?'a = rat] by simp

lemma ceiling_rat_numeral: "\<lceil>numeral a / numeral b :: rat\<rceil> = - (- numeral a div numeral b)"
proof -
  have "\<lceil>numeral a / numeral b :: rat\<rceil> =
      - \<lfloor>of_int (- numeral a) / of_int (numeral b) :: rat\<rfloor>"
    by (simp add: ceiling_def)
  also have "\<dots> = - (- numeral a div numeral b)"
    by (simp only: floor_divide_of_int_eq)
  finally show ?thesis .
qed

lemmas round_eval = round_double_def round_positive_def exponent_def bit_length.simps pow2_def
  round_half_even_def Let_def floor_rat_numeral ceiling_rat_numeral

lemma round_45123_45: "round_double (902469 / 20) = Fin (3100859872523059 / 68719476736)"
  by (simp add: round_eval)

lemma round_tie: "round_double 9007199254740993 = Fin 9007199254740992"
  by (simp add: round_eval)

lemma round_btc_eth:
  "round_double (3100859872523059 / 68719476736 / 2500) =
     Fin (1270112203785445 / 70368744177664)"
  by (simp add: round_eval)

subsection \<open>The numbers of a direct price\<close>

lemma scaled_answer:
  fixes k :: int and d :: nat
  assumes "\<bar>k\<bar> \<le> 2 ^ 255" and "d \<le> 80"
  obtains r where "round_double (of_int k / 10 ^ d) = Fin r"
    and "\<bar>r - of_int k / 10 ^ d\<bar> \<le> \<bar>of_int k / 10 ^ d\<bar> / 2 ^ 53"
    and "0 \<le> k \<longrightarrow> 0 \<le> r"
proof (cases "k = 0")
  case True
  then have "round_double (of_int k / 10 ^ d) = Fin 0"
    "\<bar>0 - of_int k / 10 ^ d\<bar> \<le> \<bar>of_int k / 10 ^ d :: rat\<bar> / 2 ^ 53"
    "0 \<le> k \<longrightarrow> (0::rat) \<le> 0"
    by (simp_all add: round_double_zero)
  then show ?thesis by (rule that)
next
  case False
  let ?q = "of_int k / 10 ^ d :: rat"
  have ten: "(0::rat) < 10 ^ d" by simp
  have "(10::rat) ^ d \<le> 10 ^ 80" using assms(2) by (intro power_increasing) simp_all
  also have "\<dots> \<le> 2 ^ 1022" by simp
  finally have d: "(10::rat) ^ d \<le> 2 ^ 1022" .
  from False have "1 \<le> \<bar>k\<bar>" by simp
  then have "(of_int 1 :: rat) \<le> of_int \<bar>k\<bar>" by (simp only: of_int_le_iff)
  then have k1: "(1::rat) \<le> \<bar>of_int k\<bar>" by simp
  have q: "\<bar>?q\<bar> = \<bar>of_int k\<bar> / 10 ^ d" by (simp add: abs_divide)
  have "1 / 2 ^ 1022 \<le> 1 / (10::rat) ^ d" using d ten by (intro divide_left_mono) simp_all
  also have "\<dots> \<le> \<bar>of_int k\<bar> / 10 ^ d" using k1 ten by (intro divide_right_mono) simp_all
  finally have lo: "pow2 (- 1022) \<le> \<bar>?q\<bar>" by (simp add: q pow2_def)
  have "\<bar>of_int k :: rat\<bar> / 10 ^ d \<le> \<bar>of_int k\<bar> / 1"
    using ten by (intro divide_left_mono) simp_all
  also have "\<bar>of_int k :: rat\<bar> / 1 = of_int \<bar>k\<bar>" by simp
  also have "\<dots> \<le> of_int (2 ^ 255)" using assms(1) by (simp only: of_int_le_iff)
  also have "\<dots> \<le> pow2 1000" by (simp add: pow2_def)
  finally have hi: "\<bar>?q\<bar> \<le> pow2 1000" by (simp only: q)
  from lo hi obtain r where r: "round_double ?q = Fin r" "\<bar>r - ?q\<bar> \<le> \<bar>?q\<bar> / 2 ^ 53"
    "0 \<le> ?q \<longrightarrow> 0 \<le> r"
    by (rule round_double_normal)
  have "0 \<le> k \<longrightarrow> 0 \<le> ?q" by simp
  with r(3) have "0 \<le> k \<longrightarrow> 0 \<le> r" by blast
  with r(1,2) show ?thesis by (rule that)
qed

lemma Number_bigint_exact: "\<bar>n\<bar> < 2 ^ 53 \<Longrightarrow> Number_bigint n = Fin (of_int n)"
  by (simp add: Number_bigint_def round_double_int)

lemma Number_bigint_range:
  assumes "0 \<le> n" and "n < 2 ^ 256"
  obtains r where "Number_bigint n = Fin r" and "0 \<le> r" and "r \<le> 2 ^ 257"
    and "n = 0 \<or> 1 / 2 \<le> r"
proof (cases "n = 0")
  case True
  then have "Number_bigint n = Fin 0" "(0::rat) \<le> 0" "(0::rat) \<le> 2 ^ 257" "n = 0 \<or> 1 / 2 \<le> (0::rat)"
    by (simp_all add: Number_bigint_def round_double_zero)
  then show ?thesis by (rule that)
next
  case False
  let ?x = "of_int n :: rat"
  from False assms have one: "1 \<le> ?x" by simp
  have "pow2 (- 1022) \<le> 1" by (simp add: pow2_def)
  with one have lo: "pow2 (- 1022) \<le> \<bar>?x\<bar>" by simp
  have "?x \<le> of_int (2 ^ 256)" using assms(2) by (simp only: of_int_le_iff)
  then have top: "?x \<le> 2 ^ 256" by simp
  also have "(2::rat) ^ 256 \<le> pow2 1000" by (simp add: pow2_def)
  finally have hi: "\<bar>?x\<bar> \<le> pow2 1000" using one by simp
  from lo hi obtain r where r: "round_double ?x = Fin r" "\<bar>r - ?x\<bar> \<le> \<bar>?x\<bar> / 2 ^ 53"
    "0 \<le> ?x \<longrightarrow> 0 \<le> r"
    by (rule round_double_normal)
  from one have ax: "\<bar>?x\<bar> = ?x" by simp
  have h: "?x / 2 ^ 53 \<le> ?x / 2" using one by (simp add: field_simps)
  have "r - ?x \<le> \<bar>r - ?x\<bar>" "?x - r \<le> \<bar>r - ?x\<bar>" by simp_all
  with r(2) ax h have b: "r \<le> 2 * ?x" "?x / 2 \<le> r" by linarith+
  from b(1) top have "r \<le> 2 ^ 257" by simp
  moreover from b(2) one have "1 / 2 \<le> r" by simp
  moreover from r(3) one have "0 \<le> r" by simp
  ultimately show ?thesis using r(1) that by (simp add: Number_bigint_def)
qed

lemma stamp:
  assumes "0 \<le> u" and "u < 2 ^ 256"
  obtains t where "js_mul (Number_bigint u) (Fin 1000) = Fin t" and "0 \<le> t"
    and "u * 1000 < 2 ^ 53 \<longrightarrow> t = of_int u * 1000"
proof (cases "u * 1000 < 2 ^ 53")
  case True
  with assms have "\<bar>u\<bar> < 2 ^ 53" "\<bar>u * 1000\<bar> < 2 ^ 53" by simp_all
  then have "Number_bigint u = Fin (of_int u)"
    and "round_double (of_int (u * 1000)) = Fin (of_int (u * 1000))"
    by (simp_all only: Number_bigint_exact round_double_int)
  then have "js_mul (Number_bigint u) (Fin 1000) = Fin (of_int u * 1000)" by simp
  moreover have "(0::rat) \<le> of_int u * 1000" using assms(1) by simp
  ultimately show ?thesis using that by simp
next
  case False
  then have nz: "u \<noteq> 0" by auto
  from assms obtain r where r: "Number_bigint u = Fin r" "0 \<le> r" "r \<le> 2 ^ 257"
    "u = 0 \<or> 1 / 2 \<le> r"
    by (rule Number_bigint_range)
  from r(4) nz have half: "1 / 2 \<le> r" by simp
  let ?x = "r * 1000"
  have "pow2 (- 1022) \<le> 1" by (simp add: pow2_def)
  moreover have "1 \<le> ?x" using half by simp
  ultimately have lo: "pow2 (- 1022) \<le> \<bar>?x\<bar>" by simp
  have "?x \<le> 2 ^ 257 * 1000" using r(3) by simp
  also have "\<dots> \<le> pow2 1000" by (simp add: pow2_def)
  finally have hi: "\<bar>?x\<bar> \<le> pow2 1000" using r(2) by simp
  from lo hi obtain t where t: "round_double ?x = Fin t" "0 \<le> ?x \<longrightarrow> 0 \<le> t"
    by (rule round_double_normal)
  from t(2) r(2) have "0 \<le> t" by simp
  moreover have "js_mul (Number_bigint u) (Fin 1000) = Fin t" by (simp add: r(1) t(1))
  ultimately show ?thesis using False that by simp
qed

section \<open>The price feed service: results\<close>

lemma getPrice_derived:
  "symb = ''BTC/ETH'' \<or> symb = ''BNB/ETH'' \<Longrightarrow> getPrice svc symb = getCalculatedPrice svc symb"
  by (auto simp: getPrice.simps [of svc symb] catch_null_def)

lemma getPrice_direct:
  assumes "symb \<noteq> ''BTC/ETH''" and "symb \<noteq> ''BNB/ETH''"
  shows "getPrice svc symb =
    (case map_of (priceFeeds svc) symb of
       None \<Rightarrow> None
     | Some a \<Rightarrow> (case readFeed svc symb a of Inl e \<Rightarrow> None | Inr p \<Rightarrow> Some p))"
  using assms
  by (simp add: getPrice.simps [of svc symb] catch_null_def split: option.splits sum.splits)

lemma getCalculatedPrice_unfold:
  "getCalculatedPrice svc symb =
    (case constituents symb of
       Inl e \<Rightarrow> None
     | Inr (n, d) \<Rightarrow>
        (case (getPrice svc n, getPrice svc d) of
           (Some pn, Some pd) \<Rightarrow>
              Some \<lparr>symbol = symb, price = js_div (price pn) (price pd),
                    timestamp = js_max (timestamp pn) (timestamp pd), decimals = Fin 18\<rparr>
         | _ \<Rightarrow> None))"
  by (simp add: getCalculatedPrice.simps [of svc symb] catch_null_def
        split: option.splits sum.splits prod.splits)

text \<open>When the reads of a feed give a price, and which.\<close>

lemma readFeed_Inr:
  assumes "readFeed svc symb a = Inr p"
  obtains rd dec v where "checksum_address a" and "latestRoundData svc a = Inr rd"
    and "decimals_call svc a = Inr dec" and "unat dec \<le> 80"
    and "formatUnits (answer rd) dec = Inr v"
    and "p = \<lparr>symbol = symb, price = v,
           timestamp = js_mul (Number_bigint (uint (updatedAt rd))) (Fin 1000),
           decimals = Number_bigint (uint dec)\<rparr>"
proof -
  from assms have c: "checksum_address a"
    by (auto simp: readFeed_def split: if_splits)
  with assms obtain rd where rd: "latestRoundData svc a = Inr rd"
    by (cases "latestRoundData svc a") (simp_all add: readFeed_def)
  with assms c obtain dec where dec: "decimals_call svc a = Inr dec"
    by (cases "decimals_call svc a") (simp_all add: readFeed_def)
  with assms c rd obtain v where v: "formatUnits (answer rd) dec = Inr v"
    by (cases "formatUnits (answer rd) dec") (simp_all add: readFeed_def)
  then have d: "unat dec \<le> 80"
    by (auto simp: formatUnits_def split: if_splits)
  from assms c rd dec v
  have "p = \<lparr>symbol = symb, price = v,
           timestamp = js_mul (Number_bigint (uint (updatedAt rd))) (Fin 1000),
           decimals = Number_bigint (uint dec)\<rparr>"
    by (simp add: readFeed_def)
  with c rd dec d v show ?thesis by (rule that)
qed

lemma readFeed_fails:
  assumes "\<not> checksum_address a \<or> isl (latestRoundData svc a) \<or> isl (decimals_call svc a) \<or>
    (\<exists>dec. decimals_call svc a = Inr dec \<and> 80 < unat dec)"
  shows "isl (readFeed svc symb a)"
proof (rule ccontr)
  assume "\<not> isl (readFeed svc symb a)"
  then obtain p where "readFeed svc symb a = Inr p"
    by (cases "readFeed svc symb a") simp_all
  then obtain rd dec where "checksum_address a" "latestRoundData svc a = Inr rd"
    "decimals_call svc a = Inr dec" "unat dec \<le> 80"
    by (rule readFeed_Inr)
  with assms show False by auto
qed

lemma readFeed_symbol: "readFeed svc symb a = Inr p \<Longrightarrow> symbol p = symb"
  by (erule readFeed_Inr) simp

lemma getPrice_symbol: "getPrice svc symb = Some p \<Longrightarrow> symbol p = symb"
proof (cases "symb = ''BTC/ETH'' \<or> symb = ''BNB/ETH''")
  case True
  assume "getPrice svc symb = Some p"
  with True have "getCalculatedPrice svc symb = Some p"
    by (simp add: getPrice_derived)
  then show ?thesis
    by (auto simp: getCalculatedPrice_unfold split: sum.splits option.splits prod.splits)
next
  case False
  assume "getPrice svc symb = Some p"
  with False show ?thesis
    by (auto simp: getPrice_direct split: sum.splits option.splits dest: readFeed_symbol)
qed

lemma feed_keys:
  "map_of (priceFeeds svc) symb = Some a \<Longrightarrow> symb \<in> {''BTC/USD'', ''ETH/USD'', ''BNB/USD''}"
  by (auto simp: priceFeeds_def CHAINLINK_PRICE_FEEDS_def CHAINLINK_PRICE_FEEDS_SEPOLIA_def
        split: if_splits)

lemma getPrice_direct_feed:
  assumes "symb \<noteq> ''BTC/ETH''" and "symb \<noteq> ''BNB/ETH''" and "getPrice svc symb = Some p"
  obtains a where "map_of (priceFeeds svc) symb = Some a" and "readFeed svc symb a = Inr p"
proof -
  from assms obtain a where a: "map_of (priceFeeds svc) symb = Some a"
    by (cases "map_of (priceFeeds svc) symb") (simp_all add: getPrice_direct)
  with assms have "readFeed svc symb a = Inr p"
    by (cases "readFeed svc symb a") (simp_all add: getPrice_direct)
  with a show ?thesis by (rule that)
qed

lemma getPrice_feed:
  assumes "map_of (priceFeeds svc) symb = Some a" and "getPrice svc symb = Some p"
  shows "readFeed svc symb a = Inr p"
proof -
  from assms(1) have "symb \<noteq> ''BTC/ETH''" and "symb \<noteq> ''BNB/ETH''"
    by (auto dest: feed_keys)
  then have "getPrice svc symb = (case readFeed svc symb a of Inl e \<Rightarrow> None | Inr p \<Rightarrow> Some p)"
    by (simp add: getPrice_direct assms(1))
  with assms(2) show ?thesis by (simp split: sum.splits)
qed

text \<open>The numbers of a price read from a feed.\<close>

lemma readFeed_values:
  assumes "readFeed svc symb a = Inr p"
  obtains rd dec r t where "checksum_address a" and "latestRoundData svc a = Inr rd"
    and "decimals_call svc a = Inr dec" and "unat dec \<le> 80"
    and "price p = round_double (of_int (sint (answer rd)) / 10 ^ unat dec)"
    and "price p = Fin r"
    and "\<bar>r - of_int (sint (answer rd)) / 10 ^ unat dec\<bar> \<le>
           \<bar>of_int (sint (answer rd)) / 10 ^ unat dec\<bar> / 2 ^ 53"
    and "0 \<le> sint (answer rd) \<longrightarrow> 0 \<le> r"
    and "timestamp p = js_mul (Number_bigint (uint (updatedAt rd))) (Fin 1000)"
    and "timestamp p = Fin t" and "0 \<le> t"
    and "uint (updatedAt rd) * 1000 < 2 ^ 53 \<longrightarrow> t = of_int (uint (updatedAt rd)) * 1000"
    and "decimals p = Fin (of_nat (unat dec))"
proof -
  from assms obtain rd dec v where c: "checksum_address a"
    and rd: "latestRoundData svc a = Inr rd"
    and dec: "decimals_call svc a = Inr dec" and d: "unat dec \<le> 80"
    and v: "formatUnits (answer rd) dec = Inr v"
    and p: "p = \<lparr>symbol = symb, price = v,
           timestamp = js_mul (Number_bigint (uint (updatedAt rd))) (Fin 1000),
           decimals = Number_bigint (uint dec)\<rparr>"
    by (rule readFeed_Inr)
  from v d have pv: "v = round_double (of_int (sint (answer rd)) / 10 ^ unat dec)"
    by (simp add: formatUnits_def del: of_int_sint)
  have "- (2 ^ 255) \<le> sint (answer rd)" "sint (answer rd) < 2 ^ 255"
    using sint_ge [of "answer rd"] sint_lt [of "answer rd"] by simp_all
  then have k: "\<bar>sint (answer rd)\<bar> \<le> 2 ^ 255" by simp
  from k d obtain r where r: "round_double (of_int (sint (answer rd)) / 10 ^ unat dec) = Fin r"
    "\<bar>r - of_int (sint (answer rd)) / 10 ^ unat dec\<bar> \<le>
       \<bar>of_int (sint (answer rd)) / 10 ^ unat dec\<bar> / 2 ^ 53"
    "0 \<le> sint (answer rd) \<longrightarrow> 0 \<le> r"
    by (rule scaled_answer)
  have "0 \<le> uint (updatedAt rd)" "uint (updatedAt rd) < 2 ^ 256"
    using uint_lt2p [of "updatedAt rd"] by simp_all
  then obtain t where t: "js_mul (Number_bigint (uint (updatedAt rd))) (Fin 1000) = Fin t"
    "0 \<le> t" "uint (updatedAt rd) * 1000 < 2 ^ 53 \<longrightarrow> t = of_int (uint (updatedAt rd)) * 1000"
    by (rule stamp)
  have "uint dec < 2 ^ 8" using uint_lt2p [of dec] by simp
  then have "\<bar>uint dec\<bar> < 2 ^ 53" by simp
  then have "Number_bigint (uint dec) = Fin (of_int (uint dec))"
    by (rule Number_bigint_exact)
  also have "(of_int (uint dec) :: rat) = of_nat (unat dec)"
    by (simp only: uint_nat of_int_of_nat_eq)
  finally have n: "Number_bigint (uint dec) = Fin (of_nat (unat dec))" .
  have 1: "price p = round_double (of_int (sint (answer rd)) / 10 ^ unat dec)"
    by (simp only: p pv PriceData.simps)
  have 2: "price p = Fin r" by (simp only: 1 r(1))
  have 3: "timestamp p = js_mul (Number_bigint (uint (updatedAt rd))) (Fin 1000)"
    by (simp only: p PriceData.simps)
  have 4: "timestamp p = Fin t" by (simp only: 3 t(1))
  have 5: "decimals p = Fin (of_nat (unat dec))"
    by (simp only: p PriceData.simps n)
  from c rd dec d 1 2 r(2) r(3) 3 4 t(2) t(3) 5 show ?thesis by (rule that)
qed

text \<open>
  Claim C2. For each derived symbol (BTC/ETH with numerator BTC/USD, BNB/ETH with numerator
  BNB/USD, both with denominator ETH/USD): when the fetches of the numerator and of the
  denominator succeed, their prices \<open>x\<close>, \<open>y\<close> and timestamps \<open>a\<close>, \<open>b\<close> are finite, and
  the fetch of the derived symbol returns a \<open>PriceData\<close> for that symbol whose price is the
  quotient \<open>x / y\<close> as JavaScript computes it (the double nearest to the exact quotient,
  within a relative error of \<open>2^(-53)\<close> in the normal range; for a denominator of zero,
  NaN or an infinity with the sign of \<open>x\<close>), whose timestamp is the maximum of \<open>a\<close> and \<open>b\<close>,
  and whose decimals is 18.
\<close>

theorem derived_price:
  assumes "(symb, n) \<in> {(''BTC/ETH'', ''BTC/USD''), (''BNB/ETH'', ''BNB/USD'')}"
    and "getPrice svc n = Some pn"
    and "getPrice svc ''ETH/USD'' = Some pd"
  shows "\<exists>x y a b. price pn = Fin x \<and> price pd = Fin y \<and>
      timestamp pn = Fin a \<and> timestamp pd = Fin b \<and>
      getPrice svc symb =
        Some \<lparr>symbol = symb,
              price = (if y \<noteq> 0 then round_double (x / y)
                       else if x = 0 then NaN else if 0 < x then PosInf else NegInf),
              timestamp = Fin (max a b), decimals = Fin 18\<rparr> \<and>
      (pow2 (- 1022) \<le> \<bar>x / y\<bar> \<and> \<bar>x / y\<bar> \<le> pow2 1000 \<longrightarrow>
         (\<exists>r. round_double (x / y) = Fin r \<and> \<bar>r - x / y\<bar> \<le> \<bar>x / y\<bar> / 2 ^ 53))"
proof -
  from assms(1) have d: "symb = ''BTC/ETH'' \<or> symb = ''BNB/ETH''" by auto
  from assms(1) have c: "constituents symb = Inr (n, ''ETH/USD'')"
    by (auto simp: constituents_def)
  from assms(1) have n: "n \<noteq> ''BTC/ETH''" "n \<noteq> ''BNB/ETH''" by auto
  from n assms(2) obtain an where "readFeed svc n an = Inr pn"
    by (rule getPrice_direct_feed)
  then obtain x a where x: "price pn = Fin x" and a: "timestamp pn = Fin a"
    by (rule readFeed_values)
  have "''ETH/USD'' \<noteq> ''BTC/ETH''" "''ETH/USD'' \<noteq> ''BNB/ETH''" by simp_all
  from this assms(3) obtain ad where "readFeed svc ''ETH/USD'' ad = Inr pd"
    by (rule getPrice_direct_feed)
  then obtain y b where y: "price pd = Fin y" and b: "timestamp pd = Fin b"
    by (rule readFeed_values)
  have "getPrice svc symb = getCalculatedPrice svc symb"
    using d by (rule getPrice_derived)
  also have "\<dots> = Some \<lparr>symbol = symb, price = js_div (price pn) (price pd),
          timestamp = js_max (timestamp pn) (timestamp pd), decimals = Fin 18\<rparr>"
    by (simp add: getCalculatedPrice_unfold c assms(2,3))
  also have "js_div (price pn) (price pd) =
      (if y \<noteq> 0 then round_double (x / y)
       else if x = 0 then NaN else if 0 < x then PosInf else NegInf)"
    by (simp add: x y)
  also have "js_max (timestamp pn) (timestamp pd) = Fin (max a b)"
    by (simp add: a b)
  finally have g: "getPrice svc symb =
        Some \<lparr>symbol = symb,
              price = (if y \<noteq> 0 then round_double (x / y)
                       else if x = 0 then NaN else if 0 < x then PosInf else NegInf),
              timestamp = Fin (max a b), decimals = Fin 18\<rparr>" .
  have e: "\<exists>r. round_double (x / y) = Fin r \<and> \<bar>r - x / y\<bar> \<le> \<bar>x / y\<bar> / 2 ^ 53"
    if "pow2 (- 1022) \<le> \<bar>x / y\<bar> \<and> \<bar>x / y\<bar> \<le> pow2 1000"
  proof -
    from that obtain r where "round_double (x / y) = Fin r"
      "\<bar>r - x / y\<bar> \<le> \<bar>x / y\<bar> / 2 ^ 53"
      by (elim conjE) (rule round_double_normal)
    then show ?thesis by blast
  qed
  from x y a b g e show ?thesis by blast
qed

text \<open>
  Claim C7. For a symbol with a feed address in the table, a successful fetch returns the
  oracle's data, read at an address with a valid checksum and with at most 80 decimals.
  The price is the signed raw answer divided by ten to the reported decimals, as a double:
  the nearest one, finite and within a relative error of \<open>2^(-53)\<close>. The timestamp is
  \<open>updatedAt\<close> (seconds), as a number, times 1000: finite, not negative, and the exact
  product when that is below \<open>2^53\<close>. The decimals field is the reported decimals. When
  the raw answer is not negative, neither is the price.
\<close>

theorem direct_price:
  assumes "map_of (priceFeeds svc) symb = Some a"
    and "getPrice svc symb = Some p"
  shows "\<exists>rd dec r t. latestRoundData svc a = Inr rd \<and> decimals_call svc a = Inr dec \<and>
      checksum_address a \<and> unat dec \<le> 80 \<and> symbol p = symb \<and>
      price p = round_double (of_int (sint (answer rd)) / 10 ^ unat dec) \<and>
      price p = Fin r \<and>
      \<bar>r - of_int (sint (answer rd)) / 10 ^ unat dec\<bar> \<le>
        \<bar>of_int (sint (answer rd)) / 10 ^ unat dec\<bar> / 2 ^ 53 \<and>
      timestamp p = js_mul (Number_bigint (uint (updatedAt rd))) (Fin 1000) \<and>
      timestamp p = Fin t \<and> 0 \<le> t \<and>
      (uint (updatedAt rd) * 1000 < 2 ^ 53 \<longrightarrow> t = of_int (uint (updatedAt rd)) * 1000) \<and>
      decimals p = Fin (of_nat (unat dec)) \<and>
      (0 \<le> sint (answer rd) \<longrightarrow> 0 \<le> r \<and> \<not> js_negative (price p))"
proof -
  from assms have f: "readFeed svc symb a = Inr p" by (rule getPrice_feed)
  from assms(2) have s: "symbol p = symb" by (rule getPrice_symbol)
  from f obtain rd dec r t where v: "checksum_address a" "latestRoundData svc a = Inr rd"
    "decimals_call svc a = Inr dec" "unat dec \<le> 80"
    "price p = round_double (of_int (sint (answer rd)) / 10 ^ unat dec)"
    "price p = Fin r"
    "\<bar>r - of_int (sint (answer rd)) / 10 ^ unat dec\<bar> \<le>
           \<bar>of_int (sint (answer rd)) / 10 ^ unat dec\<bar> / 2 ^ 53"
    "0 \<le> sint (answer rd) \<longrightarrow> 0 \<le> r"
    "timestamp p = js_mul (Number_bigint (uint (updatedAt rd))) (Fin 1000)"
    "timestamp p = Fin t" "0 \<le> t"
    "uint (updatedAt rd) * 1000 < 2 ^ 53 \<longrightarrow> t = of_int (uint (updatedAt rd)) * 1000"
    "decimals p = Fin (of_nat (unat dec))"
    by (rule readFeed_values)
  from v(6,8) have "0 \<le> sint (answer rd) \<longrightarrow> 0 \<le> r \<and> \<not> js_negative (price p)"
    by auto
  with v s show ?thesis by blast
qed

text \<open>
  Claim C5. \<open>getPrice\<close> returns \<open>null\<close>, and throws nothing, when the symbol is unknown (not
  derived and without an entry in the address table), when it is a derived symbol and one
  of its two sub-fetches returns \<open>null\<close>, and when the read of a direct symbol's feed
  fails: one of the two contract reads rejects, the address is refused for its checksum,
  or the formatter refuses the decimals. Every exception of the \<open>try\<close> block is an \<open>Inl\<close>
  that \<open>catch_null\<close> turns into \<open>None\<close>, so the function has a result for every symbol.
\<close>

theorem getPrice_failure_is_null:
  assumes "symb \<notin> {''BTC/ETH'', ''BNB/ETH''} \<and> map_of (priceFeeds svc) symb = None
     \<or> (\<exists>n. (symb, n) \<in> {(''BTC/ETH'', ''BTC/USD''), (''BNB/ETH'', ''BNB/USD'')} \<and>
           (getPrice svc n = None \<or> getPrice svc ''ETH/USD'' = None))
     \<or> (\<exists>a. map_of (priceFeeds svc) symb = Some a \<and>
           (isl (latestRoundData svc a) \<or> isl (decimals_call svc a) \<or>
            \<not> checksum_address a \<or>
            (\<exists>dec. decimals_call svc a = Inr dec \<and> 80 < unat dec)))"
  shows "getPrice svc symb = None"
proof -
  from assms consider
    (unknown) "symb \<notin> {''BTC/ETH'', ''BNB/ETH''}" "map_of (priceFeeds svc) symb = None"
  | (sub) n where "(symb, n) \<in> {(''BTC/ETH'', ''BTC/USD''), (''BNB/ETH'', ''BNB/USD'')}"
      "getPrice svc n = None \<or> getPrice svc ''ETH/USD'' = None"
  | (call) a where "map_of (priceFeeds svc) symb = Some a"
      "\<not> checksum_address a \<or> isl (latestRoundData svc a) \<or> isl (decimals_call svc a) \<or>
       (\<exists>dec. decimals_call svc a = Inr dec \<and> 80 < unat dec)"
    by (elim disjE exE conjE) blast+
  then show ?thesis
  proof cases
    case unknown
    then show ?thesis by (simp add: getPrice_direct)
  next
    case sub
    from sub(1) have "constituents symb = Inr (n, ''ETH/USD'')"
      by (auto simp: constituents_def)
    moreover from sub(1) have "getPrice svc symb = getCalculatedPrice svc symb"
      by (auto intro: getPrice_derived)
    ultimately show ?thesis using sub(2)
      by (auto simp: getCalculatedPrice_unfold split: option.splits)
  next
    case call
    from call(1) have "symb \<noteq> ''BTC/ETH''" and "symb \<noteq> ''BNB/ETH''"
      by (auto dest: feed_keys)
    moreover from call(2) have "isl (readFeed svc symb a)" by (rule readFeed_fails)
    ultimately show ?thesis using call(1)
      by (auto simp: getPrice_direct isl_def)
  qed
qed

lemma example_feeds:
  "map_of (priceFeeds example_service) ''BTC/USD'' = Some ''0x1b44F3514812d835EB1BDB0acB33d3fA3351Ee43''"
  "map_of (priceFeeds example_service) ''ETH/USD'' = Some ''0x694AA1769357215DE4FAC081bf1f309aDC325306''"
  "map_of (priceFeeds example_service) ''BNB/USD'' = Some ''0x2c9972C4C4C4C4C4C4C4C4C4C4C4C4C4C4C4C4C4''"
  by (simp_all add: priceFeeds_def example_service_def CHAINLINK_PRICE_FEEDS_SEPOLIA_def)

lemma round_stamps:
  "round_double 1700000000000 = Fin 1700000000000"
  "round_double 1700000010000 = Fin 1700000010000"
  "round_double 1700000000 = Fin 1700000000"
  "round_double 1700000010 = Fin 1700000010"
  "round_double 2500 = Fin 2500"
  "round_double 8 = Fin 8"
  using round_double_int [of 1700000000000] round_double_int [of 1700000010000]
    round_double_int [of 1700000000] round_double_int [of 1700000010]
    round_double_int [of 2500] round_double_int [of 8]
  by simp_all

lemma example_getPrice_btc: "getPrice example_service ''BTC/USD'' = Some example_btc"
  by (simp add: getPrice_direct example_feeds)
     (simp add: readFeed_def checksum_address_def example_service_def example_round_def
        example_btc_def formatUnits_def Number_bigint_def round_stamps round_45123_45)

lemma example_getPrice_eth: "getPrice example_service ''ETH/USD'' = Some example_eth"
  by (simp add: getPrice_direct example_feeds)
     (simp add: readFeed_def checksum_address_def example_service_def example_round_def
        example_eth_def formatUnits_def Number_bigint_def round_stamps)

lemma example_getPrice_bnb: "getPrice example_service ''BNB/USD'' = None"
  by (simp add: getPrice_direct example_feeds)
     (simp add: readFeed_def checksum_address_def)

lemma round_btc_eth_quotient:
  "round_double (3100859872523059 / 171798691840000) =
     Fin (1270112203785445 / 70368744177664)"
  using round_btc_eth by simp

lemma example_getPrice_btc_eth: "getPrice example_service ''BTC/ETH'' = Some example_btc_eth"
  by (simp add: getPrice_derived getCalculatedPrice_unfold constituents_def
        example_getPrice_btc example_getPrice_eth example_btc_def example_eth_def
        example_btc_eth_def round_btc_eth_quotient)

lemma example_getPrice_bnb_eth: "getPrice example_service ''BNB/ETH'' = None"
  by (simp add: getPrice_derived getCalculatedPrice_unfold constituents_def
        example_getPrice_bnb)

text \<open>
  On the example network BTC/ETH is the double next to 45123.45 / 2500, stamped with the
  later of the two updates.
\<close>

theorem derived_price_witness:
  "getPrice example_service ''BTC/USD'' = Some example_btc \<and>
   getPrice example_service ''ETH/USD'' = Some example_eth \<and>
   price example_btc = Fin (3100859872523059 / 68719476736) \<and>
   price example_eth = Fin 2500 \<and>
   timestamp example_btc = Fin 1700000000000 \<and>
   timestamp example_eth = Fin 1700000010000 \<and>
   getPrice example_service ''BTC/ETH'' =
     Some \<lparr>symbol = ''BTC/ETH'', price = Fin (1270112203785445 / 70368744177664),
           timestamp = Fin 1700000010000, decimals = Fin 18\<rparr>"
proof -
  have "(''BTC/ETH'', ''BTC/USD'') \<in> {(''BTC/ETH'', ''BTC/USD''), (''BNB/ETH'', ''BNB/USD'')}"
    by simp
  from derived_price [OF this example_getPrice_btc example_getPrice_eth]
  obtain x y a b where v: "price example_btc = Fin x" "price example_eth = Fin y"
    "timestamp example_btc = Fin a" "timestamp example_eth = Fin b"
    and g: "getPrice example_service ''BTC/ETH'' =
        Some \<lparr>symbol = ''BTC/ETH'',
              price = (if y \<noteq> 0 then round_double (x / y)
                       else if x = 0 then NaN else if 0 < x then PosInf else NegInf),
              timestamp = Fin (max a b), decimals = Fin 18\<rparr>"
    by blast
  from v have e: "x = 3100859872523059 / 68719476736" "y = 2500" "a = 1700000000000"
    "b = 1700000010000"
    by (simp_all add: example_btc_def example_eth_def)
  from g show ?thesis
    unfolding e
    by (simp add: example_getPrice_btc example_getPrice_eth example_btc_def example_eth_def
          round_btc_eth_quotient)
qed

lemma example_odd_feed:
  "map_of (priceFeeds example_service_odd) ''BTC/USD'' =
     Some ''0xF4030086522a5bEEa4988F8cA5B36dbC97BeE88c''"
  by (simp add: priceFeeds_def example_service_odd_def CHAINLINK_PRICE_FEEDS_def)

lemma round_zero_decimals: "round_double 0 = Fin 0"
  by (simp add: round_double_def)

lemma example_getPrice_odd:
  "getPrice example_service_odd ''BTC/USD'' =
     Some \<lparr>symbol = ''BTC/USD'', price = Fin 9007199254740992,
           timestamp = Fin 1700000000000, decimals = Fin 0\<rparr>"
  by (simp add: getPrice_direct example_odd_feed)
     (simp add: readFeed_def checksum_address_def example_service_odd_def example_round_def
        formatUnits_def Number_bigint_def round_stamps round_tie round_zero_decimals)

text \<open>
  The BTC/USD feed of the example network, raw answer 4512345000000 with 8 decimals: the
  price is the double next to 45123.45. A feed that answers \<open>2^53 + 1\<close> with no decimals
  gives the price \<open>2^53\<close>.
\<close>

theorem direct_price_witness:
  "getPrice example_service ''BTC/USD'' = Some example_btc \<and>
   (\<exists>rd dec.
      latestRoundData example_service ''0x1b44F3514812d835EB1BDB0acB33d3fA3351Ee43'' = Inr rd \<and>
      decimals_call example_service ''0x1b44F3514812d835EB1BDB0acB33d3fA3351Ee43'' = Inr dec \<and>
      sint (answer rd) = 4512345000000 \<and> unat dec = 8 \<and> uint (updatedAt rd) = 1700000000 \<and>
      price example_btc = round_double (of_int (sint (answer rd)) / 10 ^ unat dec)) \<and>
   price example_btc = Fin (3100859872523059 / 68719476736) \<and>
   \<bar>3100859872523059 / 68719476736 - 902469 / 20 :: rat\<bar> \<le> \<bar>902469 / 20\<bar> / 2 ^ 53 \<and>
   timestamp example_btc = Fin 1700000000000 \<and>
   decimals example_btc = Fin 8 \<and>
   \<not> js_negative (price example_btc) \<and>
   getPrice example_service_odd ''BTC/USD'' =
     Some \<lparr>symbol = ''BTC/USD'', price = Fin 9007199254740992,
           timestamp = Fin 1700000000000, decimals = Fin 0\<rparr>"
proof -
  from direct_price [OF example_feeds(1) example_getPrice_btc]
  obtain rd dec r t where
    r: "latestRoundData example_service ''0x1b44F3514812d835EB1BDB0acB33d3fA3351Ee43'' = Inr rd"
      "decimals_call example_service ''0x1b44F3514812d835EB1BDB0acB33d3fA3351Ee43'' = Inr dec"
      "price example_btc = round_double (of_int (sint (answer rd)) / 10 ^ unat dec)"
      "price example_btc = Fin r"
      "\<bar>r - of_int (sint (answer rd)) / 10 ^ unat dec\<bar> \<le>
         \<bar>of_int (sint (answer rd)) / 10 ^ unat dec\<bar> / 2 ^ 53"
      "timestamp example_btc = Fin t"
      "uint (updatedAt rd) * 1000 < 2 ^ 53 \<longrightarrow> t = of_int (uint (updatedAt rd)) * 1000"
      "decimals example_btc = Fin (of_nat (unat dec))"
      "0 \<le> sint (answer rd) \<longrightarrow> 0 \<le> r \<and> \<not> js_negative (price example_btc)"
    by blast
  from r(1) have rd: "rd = example_round 4512345000000 1700000000"
    by (simp add: example_service_def)
  from r(2) have dec: "dec = 8"
    by (simp add: example_service_def)
  have v: "sint (answer rd) = 4512345000000" "unat dec = 8" "uint (updatedAt rd) = 1700000000"
    by (simp_all add: rd dec example_round_def)
  from r(3,4) have p: "r = 3100859872523059 / 68719476736"
    by (simp add: v round_45123_45)
  from r(7) have t: "t = 1700000000000" by (simp add: v)
  from r(5) have b: "\<bar>3100859872523059 / 68719476736 - 902469 / 20 :: rat\<bar> \<le>
      \<bar>902469 / 20\<bar> / 2 ^ 53"
    unfolding p v by simp
  from r(9) have n: "\<not> js_negative (price example_btc)" by (simp add: v)
  have "\<exists>rd dec.
      latestRoundData example_service ''0x1b44F3514812d835EB1BDB0acB33d3fA3351Ee43'' = Inr rd \<and>
      decimals_call example_service ''0x1b44F3514812d835EB1BDB0acB33d3fA3351Ee43'' = Inr dec \<and>
      sint (answer rd) = 4512345000000 \<and> unat dec = 8 \<and> uint (updatedAt rd) = 1700000000 \<and>
      price example_btc = round_double (of_int (sint (answer rd)) / 10 ^ unat dec)"
    using r(1,2,3) v by (intro exI [of _ rd] exI [of _ dec] conjI)
  moreover from r(4) p have "price example_btc = Fin (3100859872523059 / 68719476736)"
    by simp
  moreover from r(6) t have "timestamp example_btc = Fin 1700000000000" by simp
  moreover from r(8) have "decimals example_btc = Fin 8" by (simp add: v)
  ultimately show ?thesis
    using b n example_getPrice_btc example_getPrice_odd by (intro conjI)
qed

lemma example_wide_feed:
  "map_of (priceFeeds example_service_wide) ''BTC/USD'' =
     Some ''0x1b44F3514812d835EB1BDB0acB33d3fA3351Ee43''"
  by (simp add: priceFeeds_def example_service_wide_def example_service_def
        CHAINLINK_PRICE_FEEDS_SEPOLIA_def)

lemma example_down_feed:
  "map_of (priceFeeds example_service_down) ''BTC/USD'' =
     Some ''0x1b44F3514812d835EB1BDB0acB33d3fA3351Ee43''"
  by (simp add: priceFeeds_def example_service_down_def example_service_def
        CHAINLINK_PRICE_FEEDS_SEPOLIA_def)

text \<open>
  An unknown symbol, a derived pair whose numerator fails, the address with the wrong
  checksum, a network whose reads fail and a feed that reports 81 decimals.
\<close>

theorem getPrice_failure_is_null_witness:
  "getPrice example_service ''DOGE/USD'' = None \<and>
   getPrice example_service ''BNB/ETH'' = None \<and>
   getPrice example_service ''BNB/USD'' = None \<and>
   getPrice example_service_down ''BTC/USD'' = None \<and>
   getPrice example_service_wide ''BTC/USD'' = None"
proof (intro conjI)
  have "map_of (priceFeeds example_service) ''DOGE/USD'' = None"
    by (simp add: priceFeeds_def example_service_def CHAINLINK_PRICE_FEEDS_SEPOLIA_def)
  then show "getPrice example_service ''DOGE/USD'' = None"
    by (intro getPrice_failure_is_null) simp
  show "getPrice example_service ''BNB/ETH'' = None"
    by (rule getPrice_failure_is_null) (simp add: example_getPrice_bnb)
  have "\<not> checksum_address ''0x2c9972C4C4C4C4C4C4C4C4C4C4C4C4C4C4C4C4C4''"
    by (simp add: checksum_address_def)
  then show "getPrice example_service ''BNB/USD'' = None"
    by (intro getPrice_failure_is_null) (simp add: example_feeds)
  have "isl (latestRoundData example_service_down ''0x1b44F3514812d835EB1BDB0acB33d3fA3351Ee43'')"
    by (simp add: example_service_down_def)
  then show "getPrice example_service_down ''BTC/USD'' = None"
    by (intro getPrice_failure_is_null) (simp add: example_down_feed)
  have "decimals_call example_service_wide ''0x1b44F3514812d835EB1BDB0acB33d3fA3351Ee43'' = Inr 81"
    by (simp add: example_service_wide_def)
  then show "getPrice example_service_wide ''BTC/USD'' = None"
    by (intro getPrice_failure_is_null) (simp add: example_wide_feed)
qed

lemma symbols_of_successes:
  "map symbol (map the (filter (\<lambda>price. price \<noteq> None) (map (getPrice svc) xs))) =
     filter (\<lambda>s. getPrice svc s \<noteq> None) xs"
  by (induction xs) (auto dest: getPrice_symbol)

lemma successes_are_fetched:
  assumes "p \<in> set (map the (filter (\<lambda>price. price \<noteq> None) (map (getPrice svc) xs)))"
  shows "getPrice svc (symbol p) = Some p"
proof -
  from assms obtain s where s: "getPrice svc s = Some p"
    by auto
  then have "symbol p = s" by (rule getPrice_symbol)
  with s show ?thesis by simp
qed

lemma getPrice_down: "getPrice example_service_down s = None"
proof (cases "s = ''BTC/ETH'' \<or> s = ''BNB/ETH''")
  case False
  then show ?thesis
    by (simp add: getPrice_direct readFeed_def example_service_down_def split: option.splits)
next
  case True
  have "getPrice example_service_down ''ETH/USD'' = None"
    by (simp add: getPrice_direct readFeed_def example_service_down_def split: option.splits)
  with True show ?thesis
    by (auto simp: getPrice_derived getCalculatedPrice_unfold constituents_def
          split: option.splits)
qed

lemma getAllPrices_down: "getAllPrices example_service_down = []"
  by (simp add: getAllPrices_def getPrice_down)

text \<open>
  Claim C4. The symbols of the list \<open>getAllPrices\<close> returns are exactly those symbols of
  BTC/USD, ETH/USD, BTC/ETH, BNB/ETH whose fetch succeeded, in this order; every entry is
  the result of the fetch of its symbol, so no symbol whose fetch returned \<open>null\<close> is
  there; when exactly one of the four fetches fails, the list has length 3; and there is a
  service for which the list is empty.
\<close>

theorem getAllPrices_successes:
  "map symbol (getAllPrices svc) =
     filter (\<lambda>s. getPrice svc s \<noteq> None) [''BTC/USD'', ''ETH/USD'', ''BTC/ETH'', ''BNB/ETH''] \<and>
   (\<forall>p \<in> set (getAllPrices svc). getPrice svc (symbol p) = Some p) \<and>
   (length (filter (\<lambda>s. getPrice svc s = None)
       [''BTC/USD'', ''ETH/USD'', ''BTC/ETH'', ''BNB/ETH'']) = 1 \<longrightarrow>
     length (getAllPrices svc) = 3) \<and>
   (\<exists>down. getAllPrices down = [])"
proof (intro conjI ballI impI)
  let ?xs = "[''BTC/USD'', ''ETH/USD'', ''BTC/ETH'', ''BNB/ETH'']"
  have unfold: "getAllPrices svc =
      map the (filter (\<lambda>price. price \<noteq> None) (map (getPrice svc) ?xs))"
    by (simp add: getAllPrices_def Let_def)
  show syms: "map symbol (getAllPrices svc) = filter (\<lambda>s. getPrice svc s \<noteq> None) ?xs"
    unfolding unfold by (rule symbols_of_successes)
  show "getPrice svc (symbol p) = Some p" if "p \<in> set (getAllPrices svc)" for p
    using that unfolding unfold by (rule successes_are_fetched)
  show "length (getAllPrices svc) = 3"
    if one: "length (filter (\<lambda>s. getPrice svc s = None) ?xs) = 1"
  proof -
    have "length (filter (\<lambda>s. getPrice svc s = None) ?xs) +
        length (filter (\<lambda>s. \<not> getPrice svc s = None) ?xs) = length ?xs"
      by (rule sum_length_filter_compl)
    with one have "length (filter (\<lambda>s. getPrice svc s \<noteq> None) ?xs) = 3"
      by simp
    with syms have "length (map symbol (getAllPrices svc)) = 3" by simp
    then show ?thesis by simp
  qed
  show "\<exists>down. getAllPrices down = []"
    using getAllPrices_down by blast
qed

text \<open>
  On the example network only the fetch of BNB/ETH fails, and three prices are returned.
\<close>

lemma getAllPrices_example:
  "getAllPrices example_service = [example_btc, example_eth, example_btc_eth]"
  by (simp add: getAllPrices_def example_getPrice_btc example_getPrice_eth
        example_getPrice_btc_eth example_getPrice_bnb_eth)

theorem getAllPrices_successes_witness:
  "length (filter (\<lambda>s. getPrice example_service s = None)
       [''BTC/USD'', ''ETH/USD'', ''BTC/ETH'', ''BNB/ETH'']) = 1 \<and>
   length (getAllPrices example_service) = 3 \<and>
   map symbol (getAllPrices example_service) = [''BTC/USD'', ''ETH/USD'', ''BTC/ETH''] \<and>
   example_eth \<in> set (getAllPrices example_service) \<and>
   getPrice example_service (symbol example_eth) = Some example_eth"
proof -
  have f: "filter (\<lambda>s. getPrice example_service s = None)
      [''BTC/USD'', ''ETH/USD'', ''BTC/ETH'', ''BNB/ETH''] = [''BNB/ETH'']"
    and g: "filter (\<lambda>s. getPrice example_service s \<noteq> None)
      [''BTC/USD'', ''ETH/USD'', ''BTC/ETH'', ''BNB/ETH''] = [''BTC/USD'', ''ETH/USD'', ''BTC/ETH'']"
    by (simp_all add: example_getPrice_btc example_getPrice_eth example_getPrice_btc_eth
          example_getPrice_bnb_eth)
  have m: "example_eth \<in> set (getAllPrices example_service)"
    by (simp add: getAllPrices_example)
  from getAllPrices_successes [of example_service] f g m show ?thesis
    by (simp only: list.size length_Cons) simp
qed

section \<open>The price bot: results\<close>

subsection \<open>One update cycle\<close>

lemma callback_frame:
  "intervalId (snd (messageCallback e m s)) = intervalId s"
  "timers (snd (messageCallback e m s)) = timers s"
  "next_timer (snd (messageCallback e m s)) = next_timer s"
  "config (snd (messageCallback e m s)) = config s"
  "configs (snd (messageCallback e m s)) = configs s"
  "arrays (snd (messageCallback e m s)) = arrays s"
  "next_ref (snd (messageCallback e m s)) = next_ref s"
  "previousPrices (snd (messageCallback e m s)) = previousPrices s"
  "maps (snd (messageCallback e m s)) = maps s"
  "delivered (snd (messageCallback e m s)) = delivered s @ [m]"
  "fst (messageCallback e m s) = (if callback_throws e m then Inl (Error ''messageCallback'') else Inr ())"
  by (simp_all add: messageCallback_def)

lemma try_frame:
  "intervalId (snd (sendPriceUpdate_try e s)) = intervalId s"
  "timers (snd (sendPriceUpdate_try e s)) = timers s"
  "next_timer (snd (sendPriceUpdate_try e s)) = next_timer s"
  "config (snd (sendPriceUpdate_try e s)) = config s"
  "configs (snd (sendPriceUpdate_try e s)) = configs s"
  "arrays (snd (sendPriceUpdate_try e s)) = arrays s"
  "next_ref (snd (sendPriceUpdate_try e s)) = next_ref s"
  "previousPrices (snd (sendPriceUpdate_try e s)) = previousPrices s"
  by (simp_all add: sendPriceUpdate_try_def Let_def callback_frame split: sum.splits)

lemma cycle_frame:
  "intervalId (snd (sendPriceUpdate e s)) = intervalId s"
  "timers (snd (sendPriceUpdate e s)) = timers s"
  "next_timer (snd (sendPriceUpdate e s)) = next_timer s"
  "config (snd (sendPriceUpdate e s)) = config s"
  "configs (snd (sendPriceUpdate e s)) = configs s"
  "arrays (snd (sendPriceUpdate e s)) = arrays s"
  "next_ref (snd (sendPriceUpdate e s)) = next_ref s"
  "previousPrices (snd (sendPriceUpdate e s)) = previousPrices s"
proof -
  obtain r s1 where t: "sendPriceUpdate_try e s = (r, s1)" by (cases "sendPriceUpdate_try e s")
  have s1: "intervalId s1 = intervalId s" "timers s1 = timers s" "next_timer s1 = next_timer s"
    "config s1 = config s" "configs s1 = configs s" "arrays s1 = arrays s"
    "next_ref s1 = next_ref s" "previousPrices s1 = previousPrices s"
    using try_frame [of e s] by (simp_all add: t)
  show "intervalId (snd (sendPriceUpdate e s)) = intervalId s"
    "timers (snd (sendPriceUpdate e s)) = timers s"
    "next_timer (snd (sendPriceUpdate e s)) = next_timer s"
    "config (snd (sendPriceUpdate e s)) = config s"
    "configs (snd (sendPriceUpdate e s)) = configs s"
    "arrays (snd (sendPriceUpdate e s)) = arrays s"
    "next_ref (snd (sendPriceUpdate e s)) = next_ref s"
    "previousPrices (snd (sendPriceUpdate e s)) = previousPrices s"
    by (simp_all add: sendPriceUpdate_def t s1 callback_frame split: sum.splits)
qed

lemma cycle_this_config: "this_config (snd (sendPriceUpdate e s)) = this_config s"
  by (simp add: this_config_def cycle_frame)

text \<open>The filter on a bot whose \<open>symbols\<close> is an array.\<close>

lemma filteredPrices_Some:
  "this_symbols s = Some syms \<Longrightarrow>
     filteredPrices s allPrices = Inr (filter (\<lambda>p. symbol p \<in> set syms) allPrices)"
  by (simp add: filteredPrices_def)

text \<open>The ways a cycle ends.\<close>

lemma cycle_fetch_error:
  "fetched e = Inl err \<Longrightarrow> sendPriceUpdate e s = messageCallback e (errorMessage e) s"
  by (simp add: sendPriceUpdate_def sendPriceUpdate_try_def)

lemma cycle_filter_error:
  "fetched e = Inr allPrices \<Longrightarrow> filteredPrices s allPrices = Inl err \<Longrightarrow>
     sendPriceUpdate e s = messageCallback e (errorMessage e) s"
  by (simp add: sendPriceUpdate_def sendPriceUpdate_try_def)

lemma cycle_nothing:
  "fetched e = Inr allPrices \<Longrightarrow> filteredPrices s allPrices = Inr [] \<Longrightarrow>
     sendPriceUpdate e s = (Inr (), s)"
  by (simp add: sendPriceUpdate_def sendPriceUpdate_try_def)

lemma cycle_format_error:
  "fetched e = Inr allPrices \<Longrightarrow> filteredPrices s allPrices = Inr ps \<Longrightarrow> ps \<noteq> [] \<Longrightarrow>
     formatPriceMessage e ps = Inl err \<Longrightarrow>
     sendPriceUpdate e s = messageCallback e (errorMessage e) s"
  by (simp add: sendPriceUpdate_def sendPriceUpdate_try_def)

lemma cycle_sent:
  assumes "fetched e = Inr allPrices" and "filteredPrices s allPrices = Inr ps" and "ps \<noteq> []"
    and "formatPriceMessage e ps = Inr text"
    and "\<not> callback_throws e (priceMessage e text ps)"
  shows "fst (sendPriceUpdate e s) = Inr ()"
    and "delivered (snd (sendPriceUpdate e s)) = delivered s @ [priceMessage e text ps]"
  using assms
  by (simp_all add: sendPriceUpdate_def sendPriceUpdate_try_def Let_def messageCallback_def)

lemma cycle_emit_error:
  assumes "fetched e = Inr allPrices" and "filteredPrices s allPrices = Inr ps" and "ps \<noteq> []"
    and "formatPriceMessage e ps = Inr text"
    and "callback_throws e (priceMessage e text ps)"
  shows "delivered (snd (sendPriceUpdate e s)) =
      delivered s @ [priceMessage e text ps] @ [errorMessage e]"
    and "fst (sendPriceUpdate e s) =
      (if callback_throws e (errorMessage e) then Inl (Error ''messageCallback'') else Inr ())"
  using assms
  by (simp_all add: sendPriceUpdate_def sendPriceUpdate_try_def Let_def messageCallback_def)

lemma errorMessage_fields:
  "content (errorMessage e) = failure_text" "priceData (errorMessage e) = None"
  by (simp_all add: errorMessage_def)

lemma priceMessage_fields:
  "priceData (priceMessage e text ps) = Some ps" "content (priceMessage e text ps) = text"
  by (simp_all add: priceMessage_def)

subsection \<open>Manual updates and failures\<close>

lemma fire_frame:
  "intervalId (fire e h s) = intervalId s" "timers (fire e h s) = timers s"
  "next_timer (fire e h s) = next_timer s" "config (fire e h s) = config s"
  "configs (fire e h s) = configs s" "next_ref (fire e h s) = next_ref s"
  "previousPrices (fire e h s) = previousPrices s" "arrays (fire e h s) = arrays s"
  by (simp_all add: fire_def cycle_frame)

lemma fire_nothing:
  "fetched e = Inr allPrices \<Longrightarrow> filteredPrices s allPrices = Inr [] \<Longrightarrow> fire e h s = s"
  by (simp add: fire_def cycle_nothing)

text \<open>
  Claim C1, as amended. A manual update runs one cycle whatever \<open>enabled\<close> and the running
  state are, and leaves the timer and the configuration alone. The filtered list is the
  fetched prices whose symbol is configured. When the fetch returns a list and no price
  of it is for a configured symbol, the cycle ends without calling the callback, in a
  manual update as in a timer firing. When the filtered list is not empty and neither the
  formatter nor the callback throws, the callback is called once, with a price message
  that carries the filtered list. When the fetch throws, the callback is called once with
  the error message, whose text is the fixed failure text and which has no \<open>priceData\<close>.
\<close>

theorem manual_update_cycle:
  "intervalId (snd (triggerManualUpdate e s)) = intervalId s \<and>
   timers (snd (triggerManualUpdate e s)) = timers s \<and>
   this_config (snd (triggerManualUpdate e s)) = this_config s \<and>
   (this_symbols s = Some syms \<longrightarrow>
      filteredPrices s allPrices = Inr (filter (\<lambda>p. symbol p \<in> set syms) allPrices)) \<and>
   (fetched e = Inr allPrices \<and> filteredPrices s allPrices = Inr [] \<longrightarrow>
      triggerManualUpdate e s = (Inr (), s) \<and> fire e h s = s) \<and>
   (fetched e = Inr allPrices \<and> filteredPrices s allPrices = Inr ps \<and> ps \<noteq> [] \<and>
    formatPriceMessage e ps = Inr text \<and> \<not> callback_throws e (priceMessage e text ps) \<longrightarrow>
      fst (triggerManualUpdate e s) = Inr () \<and>
      delivered (snd (triggerManualUpdate e s)) = delivered s @ [priceMessage e text ps] \<and>
      priceData (priceMessage e text ps) = Some ps) \<and>
   (fetched e = Inl err \<longrightarrow>
      delivered (snd (triggerManualUpdate e s)) = delivered s @ [errorMessage e] \<and>
      content (errorMessage e) = failure_text \<and> priceData (errorMessage e) = None)"
proof (intro conjI impI)
  show "intervalId (snd (triggerManualUpdate e s)) = intervalId s"
    and "timers (snd (triggerManualUpdate e s)) = timers s"
    and "this_config (snd (triggerManualUpdate e s)) = this_config s"
    by (simp_all add: triggerManualUpdate_def cycle_frame cycle_this_config)
next
  assume "this_symbols s = Some syms"
  then show "filteredPrices s allPrices = Inr (filter (\<lambda>p. symbol p \<in> set syms) allPrices)"
    by (rule filteredPrices_Some)
next
  assume "fetched e = Inr allPrices \<and> filteredPrices s allPrices = Inr []"
  then show "triggerManualUpdate e s = (Inr (), s)" and "fire e h s = s"
    by (simp_all add: triggerManualUpdate_def cycle_nothing fire_nothing)
next
  assume a: "fetched e = Inr allPrices \<and> filteredPrices s allPrices = Inr ps \<and> ps \<noteq> [] \<and>
    formatPriceMessage e ps = Inr text \<and> \<not> callback_throws e (priceMessage e text ps)"
  then show "fst (triggerManualUpdate e s) = Inr ()"
    by (simp add: triggerManualUpdate_def cycle_sent(1))
  from a show "delivered (snd (triggerManualUpdate e s)) = delivered s @ [priceMessage e text ps]"
    by (simp add: triggerManualUpdate_def cycle_sent(2))
  show "priceData (priceMessage e text ps) = Some ps"
    by (simp add: priceMessage_fields)
next
  assume "fetched e = Inl err"
  then show "delivered (snd (triggerManualUpdate e s)) = delivered s @ [errorMessage e]"
    by (simp add: triggerManualUpdate_def cycle_fetch_error callback_frame)
  show "content (errorMessage e) = failure_text" and "priceData (errorMessage e) = None"
    by (simp_all add: errorMessage_fields)
qed

lemma string_of_nat_7: "string_of_nat 7 = ''7''"
  by (simp add: string_of_nat.simps)

lemma default_symbols:
  "this_symbols createPriceBot = Some [''BTC/USD'', ''ETH/USD'', ''BTC/ETH'', ''BNB/ETH'']"
  by (simp add: createPriceBot_def new_PriceBot_def this_symbols_def this_config_def)

lemma default_delivered: "delivered createPriceBot = []"
  by (simp add: createPriceBot_def new_PriceBot_def)

lemma example_env_fields:
  "fetched (example_env f t) = f"
  "formatPriceMessage (example_env f t) ps = Inr ''Crypto Price Update''"
  "callback_throws (example_env f t) = t"
  by (simp_all add: example_env_def)

lemma example_priceMessage:
  "priceMessage (example_env f t) ''Crypto Price Update'' ps = example_message ps"
  by (simp add: priceMessage_def example_env_def example_message_def string_of_nat_7)

lemma default_filter_btc: "filteredPrices createPriceBot [example_btc] = Inr [example_btc]"
  by (simp add: filteredPrices_def default_symbols example_btc_def)

lemma default_filter_empty: "filteredPrices s [] = Inr []"
  by (simp add: filteredPrices_def)

text \<open>
  The three cases on a default bot: an empty fetch, a fetch of BTC/USD, a fetch that throws.
\<close>

theorem manual_update_cycle_witness:
  "triggerManualUpdate (example_env (Inr []) (\<lambda>m. False)) createPriceBot =
     (Inr (), createPriceBot) \<and>
   filteredPrices createPriceBot [example_btc] = Inr [example_btc] \<and>
   delivered (snd (triggerManualUpdate (example_env (Inr [example_btc]) (\<lambda>m. False))
     createPriceBot)) = [example_message [example_btc]] \<and>
   delivered (snd (triggerManualUpdate (example_env (Inl (Error ''rpc'')) (\<lambda>m. False))
     createPriceBot)) = [errorMessage (example_env (Inl (Error ''rpc'')) (\<lambda>m. False))]"
proof (intro conjI)
  show "triggerManualUpdate (example_env (Inr []) (\<lambda>m. False)) createPriceBot =
     (Inr (), createPriceBot)"
    using manual_update_cycle [of "example_env (Inr []) (\<lambda>m. False)" createPriceBot _ "[]"]
    by (simp add: example_env_fields default_filter_empty)
  show "filteredPrices createPriceBot [example_btc] = Inr [example_btc]"
    using manual_update_cycle [of _ createPriceBot
        "[''BTC/USD'', ''ETH/USD'', ''BTC/ETH'', ''BNB/ETH'']" "[example_btc]"]
    by (simp add: default_symbols example_btc_def)
  show "delivered (snd (triggerManualUpdate (example_env (Inr [example_btc]) (\<lambda>m. False))
     createPriceBot)) = [example_message [example_btc]]"
    using manual_update_cycle [of "example_env (Inr [example_btc]) (\<lambda>m. False)" createPriceBot
        _ "[example_btc]" _ "[example_btc]" "''Crypto Price Update''"]
    by (simp add: example_env_fields default_filter_btc example_priceMessage default_delivered)
  show "delivered (snd (triggerManualUpdate (example_env (Inl (Error ''rpc'')) (\<lambda>m. False))
     createPriceBot)) = [errorMessage (example_env (Inl (Error ''rpc'')) (\<lambda>m. False))]"
    using manual_update_cycle [of "example_env (Inl (Error ''rpc'')) (\<lambda>m. False)" createPriceBot
        _ _ _ _ _ "Error ''rpc''"]
    by (simp add: example_env_fields default_delivered)
qed

text \<open>
  Claim C1 as stated fails: a manual update whose fetch returns the empty list calls the
  callback not once with an error message but not at all.
\<close>

theorem manual_update_empty_counterexample:
  "fetched (example_env (Inr []) (\<lambda>m. False)) = Inr [] \<and>
   filteredPrices createPriceBot [] = Inr [] \<and>
   delivered (snd (triggerManualUpdate (example_env (Inr []) (\<lambda>m. False)) createPriceBot)) = []"
  by (simp add: triggerManualUpdate_def example_env_fields default_delivered
        cycle_nothing [of _ "[]"] default_filter_empty)

text \<open>
  Claim C3, as amended. When a step of the cycle throws (the fetch, the filter, the
  formatter, or the callback on the price message), the callback is called with the error
  message exactly once, after at most one price message; the error message has the fixed
  failure text and no \<open>priceData\<close>; the timer and the bot's handle are what they were,
  also after a timer firing; and when the callback does not throw on the error message,
  the cycle ends without an exception.
\<close>

theorem cycle_failure_absorbed:
  assumes "fetched e = Inl err \<or>
    (\<exists>allPrices. fetched e = Inr allPrices \<and>
       (filteredPrices s allPrices = Inl err \<or>
        (\<exists>ps. filteredPrices s allPrices = Inr ps \<and> ps \<noteq> [] \<and>
           (formatPriceMessage e ps = Inl err \<or>
            (\<exists>text. formatPriceMessage e ps = Inr text \<and>
               callback_throws e (priceMessage e text ps))))))"
  shows "(\<exists>pre. delivered (snd (sendPriceUpdate e s)) = delivered s @ pre @ [errorMessage e] \<and>
            length pre \<le> 1 \<and> (\<forall>m \<in> set pre. priceData m \<noteq> None)) \<and>
    content (errorMessage e) = failure_text \<and> priceData (errorMessage e) = None \<and>
    intervalId (snd (sendPriceUpdate e s)) = intervalId s \<and>
    timers (snd (sendPriceUpdate e s)) = timers s \<and>
    intervalId (fire e h s) = intervalId s \<and> timers (fire e h s) = timers s \<and>
    (\<not> callback_throws e (errorMessage e) \<longrightarrow> fst (sendPriceUpdate e s) = Inr ())"
proof -
  from assms consider
    (fetch) "fetched e = Inl err"
  | (filter) allPrices where "fetched e = Inr allPrices" "filteredPrices s allPrices = Inl err"
  | (format) allPrices ps where "fetched e = Inr allPrices"
      "filteredPrices s allPrices = Inr ps" "ps \<noteq> []" "formatPriceMessage e ps = Inl err"
  | (emit) allPrices ps rendered where "fetched e = Inr allPrices"
      "filteredPrices s allPrices = Inr ps" "ps \<noteq> []"
      "formatPriceMessage e ps = Inr rendered"
      "callback_throws e (priceMessage e rendered ps)"
    by (elim disjE exE conjE) blast+
  then have main: "(\<exists>pre. delivered (snd (sendPriceUpdate e s)) = delivered s @ pre @ [errorMessage e] \<and>
            length pre \<le> 1 \<and> (\<forall>m \<in> set pre. priceData m \<noteq> None)) \<and>
      (\<not> callback_throws e (errorMessage e) \<longrightarrow> fst (sendPriceUpdate e s) = Inr ())"
  proof cases
    case fetch
    then have "delivered (snd (sendPriceUpdate e s)) = delivered s @ [] @ [errorMessage e]"
      and "\<not> callback_throws e (errorMessage e) \<longrightarrow> fst (sendPriceUpdate e s) = Inr ()"
      by (simp_all add: cycle_fetch_error callback_frame)
    then show ?thesis by force
  next
    case filter
    then have "delivered (snd (sendPriceUpdate e s)) = delivered s @ [] @ [errorMessage e]"
      and "\<not> callback_throws e (errorMessage e) \<longrightarrow> fst (sendPriceUpdate e s) = Inr ()"
      by (simp_all add: cycle_filter_error callback_frame)
    then show ?thesis by force
  next
    case format
    then have "delivered (snd (sendPriceUpdate e s)) = delivered s @ [] @ [errorMessage e]"
      and "\<not> callback_throws e (errorMessage e) \<longrightarrow> fst (sendPriceUpdate e s) = Inr ()"
      by (simp_all add: cycle_format_error callback_frame)
    then show ?thesis by force
  next
    case emit
    let ?m = "priceMessage e rendered ps"
    from emit have "delivered (snd (sendPriceUpdate e s)) = delivered s @ [?m] @ [errorMessage e]"
      and "\<not> callback_throws e (errorMessage e) \<longrightarrow> fst (sendPriceUpdate e s) = Inr ()"
      by (simp_all add: cycle_emit_error)
    moreover have "length [?m] \<le> 1 \<and> (\<forall>m \<in> set [?m]. priceData m \<noteq> None)"
      by (simp add: priceMessage_fields)
    ultimately show ?thesis by blast
  qed
  then show ?thesis
    by (simp add: errorMessage_fields cycle_frame fire_frame)
qed

text \<open>
  Claim C3 as stated fails: when the callback throws on every message, the price message
  and then the error message are handed to it, the second exception leaves the \<open>catch\<close>
  block, and the manual update rejects with it. The same happens after a fetch that
  throws.
\<close>

theorem cycle_failure_counterexample:
  "fst (triggerManualUpdate (example_env (Inr [example_btc]) (\<lambda>m. True)) createPriceBot) =
     Inl (Error ''messageCallback'') \<and>
   delivered (snd (triggerManualUpdate (example_env (Inr [example_btc]) (\<lambda>m. True))
     createPriceBot)) =
     [example_message [example_btc],
      errorMessage (example_env (Inr [example_btc]) (\<lambda>m. True))] \<and>
   fst (triggerManualUpdate (example_env (Inl (Error ''rpc'')) (\<lambda>m. True)) createPriceBot) =
     Inl (Error ''messageCallback'')"
proof -
  let ?e = "example_env (Inr [example_btc]) (\<lambda>m. True)"
  have "fst (sendPriceUpdate ?e createPriceBot) = Inl (Error ''messageCallback'')"
    using cycle_emit_error(2) [of ?e "[example_btc]" createPriceBot "[example_btc]"
        "''Crypto Price Update''"]
    by (simp add: example_env_fields default_filter_btc)
  moreover
  have "delivered (snd (sendPriceUpdate ?e createPriceBot)) =
      [example_message [example_btc], errorMessage ?e]"
    using cycle_emit_error(1) [of ?e "[example_btc]" createPriceBot "[example_btc]"
        "''Crypto Price Update''"]
    by (simp add: example_env_fields default_filter_btc example_priceMessage default_delivered)
  moreover
  have "fst (sendPriceUpdate (example_env (Inl (Error ''rpc'')) (\<lambda>m. True)) createPriceBot) =
      Inl (Error ''messageCallback'')"
    by (simp add: cycle_fetch_error example_env_fields callback_frame)
  ultimately show ?thesis
    by (simp add: triggerManualUpdate_def)
qed

text \<open>
  A fetch that throws, and a callback that throws on price messages only.
\<close>

theorem cycle_failure_absorbed_witness:
  "(\<exists>pre. delivered (snd (sendPriceUpdate (example_env (Inl (Error ''rpc'')) (\<lambda>m. False))
        createPriceBot)) =
      delivered createPriceBot @ pre @ [errorMessage (example_env (Inl (Error ''rpc'')) (\<lambda>m. False))] \<and>
      length pre \<le> 1) \<and>
   fst (sendPriceUpdate (example_env (Inl (Error ''rpc'')) (\<lambda>m. False)) createPriceBot) = Inr () \<and>
   callback_throws (example_env (Inr [example_btc]) (\<lambda>m. priceData m \<noteq> None))
     (example_message [example_btc]) \<and>
   (\<exists>pre. delivered (snd (sendPriceUpdate
        (example_env (Inr [example_btc]) (\<lambda>m. priceData m \<noteq> None)) createPriceBot)) =
      delivered createPriceBot @ pre @
        [errorMessage (example_env (Inr [example_btc]) (\<lambda>m. priceData m \<noteq> None))] \<and>
      length pre \<le> 1) \<and>
   fst (sendPriceUpdate (example_env (Inr [example_btc]) (\<lambda>m. priceData m \<noteq> None))
     createPriceBot) = Inr ()"
proof -
  let ?f = "example_env (Inl (Error ''rpc'')) (\<lambda>m. False)"
  let ?g = "example_env (Inr [example_btc]) (\<lambda>m. priceData m \<noteq> None)"
  have t: "callback_throws ?g (example_message [example_btc])"
    by (simp add: example_env_fields example_message_def)
  have n: "\<not> callback_throws ?f (errorMessage ?f)" "\<not> callback_throws ?g (errorMessage ?g)"
    by (simp_all add: example_env_fields errorMessage_fields)
  have "fetched ?f = Inl (Error ''rpc'')"
    by (simp add: example_env_fields)
  then have f: "(\<exists>pre. delivered (snd (sendPriceUpdate ?f createPriceBot)) =
        delivered createPriceBot @ pre @ [errorMessage ?f] \<and> length pre \<le> 1) \<and>
      fst (sendPriceUpdate ?f createPriceBot) = Inr ()"
    using cycle_failure_absorbed [of ?f "Error ''rpc''" createPriceBot] n(1) by blast
  have "fetched ?g = Inr [example_btc] \<and>
      filteredPrices createPriceBot [example_btc] = Inr [example_btc] \<and> [example_btc] \<noteq> [] \<and>
      formatPriceMessage ?g [example_btc] = Inr ''Crypto Price Update'' \<and>
      callback_throws ?g (priceMessage ?g ''Crypto Price Update'' [example_btc])"
    using t by (simp add: example_env_fields default_filter_btc example_priceMessage)
  then have g: "(\<exists>pre. delivered (snd (sendPriceUpdate ?g createPriceBot)) =
        delivered createPriceBot @ pre @ [errorMessage ?g] \<and> length pre \<le> 1) \<and>
      fst (sendPriceUpdate ?g createPriceBot) = Inr ()"
    using cycle_failure_absorbed [of ?g "Error ''rpc''" createPriceBot] n(2) by blast
  from f g t show ?thesis by blast
qed

subsection \<open>Starting and stopping\<close>

lemma stop_frame:
  "intervalId (stop s) = None" "config (stop s) = config s" "configs (stop s) = configs s"
  "arrays (stop s) = arrays s" "maps (stop s) = maps s" "next_ref (stop s) = next_ref s"
  "previousPrices (stop s) = previousPrices s" "delivered (stop s) = delivered s"
  "next_timer (stop s) = next_timer s"
  by (simp_all add: stop_def split: option.splits)

lemma stop_this: "this_config (stop s) = this_config s" "this_symbols (stop s) = this_symbols s"
  by (simp_all add: this_config_def this_symbols_def stop_frame split: option.splits)

lemma start_frame:
  "config (start e s) = config s" "configs (start e s) = configs s"
  "arrays (start e s) = arrays s" "next_ref (start e s) = next_ref s"
  "previousPrices (start e s) = previousPrices s"
  by (simp_all add: start_def Let_def cycle_frame stop_frame)

lemma start_this: "this_config (start e s) = this_config s"
  by (simp add: this_config_def start_frame)

lemma start_nothing:
  assumes "fetched e = Inr allPrices" and "filteredPrices s allPrices = Inr []"
  shows "delivered (start e s) = delivered s"
proof -
  let ?s1 = "if intervalId s \<noteq> None then stop s else s"
  have "this_symbols ?s1 = this_symbols s" by (simp add: stop_this)
  then have "filteredPrices ?s1 allPrices = filteredPrices s allPrices"
    by (simp only: filteredPrices_def)
  with assms(2) have "filteredPrices ?s1 allPrices = Inr []" by simp
  with assms(1) have "sendPriceUpdate e ?s1 = (Inr (), ?s1)" by (rule cycle_nothing)
  moreover have "delivered ?s1 = delivered s" by (simp add: stop_frame)
  ultimately show ?thesis by (simp add: start_def Let_def)
qed

subsection \<open>Symbols that are never fetched\<close>

lemma getAllPrices_symbols:
  "map symbol (getAllPrices svc) =
     filter (\<lambda>s. getPrice svc s \<noteq> None) [''BTC/USD'', ''ETH/USD'', ''BTC/ETH'', ''BNB/ETH'']"
  unfolding getAllPrices_def Let_def by (rule symbols_of_successes)

lemma getAllPrices_canonical:
  assumes "p \<in> set (getAllPrices svc)"
  shows "symbol p \<in> {''BTC/USD'', ''ETH/USD'', ''BTC/ETH'', ''BNB/ETH''}"
proof -
  from assms have "symbol p \<in> set (map symbol (getAllPrices svc))" by simp
  then have "symbol p \<in> set (filter (\<lambda>s. getPrice svc s \<noteq> None)
      [''BTC/USD'', ''ETH/USD'', ''BTC/ETH'', ''BNB/ETH''])"
    by (simp only: getAllPrices_symbols)
  then show ?thesis by (auto split: if_splits)
qed

lemma filtered_bnb_only:
  assumes "this_symbols s = Some syms" and "set syms \<subseteq> {''BNB/USD''}"
  shows "filteredPrices s (getAllPrices svc) = Inr []"
proof -
  have "symbol p \<notin> set syms" if "p \<in> set (getAllPrices svc)" for p
  proof -
    from that have "symbol p \<in> {''BTC/USD'', ''ETH/USD'', ''BTC/ETH'', ''BNB/ETH''}"
      by (rule getAllPrices_canonical)
    then have "symbol p \<noteq> ''BNB/USD''" by auto
    with assms(2) show ?thesis by auto
  qed
  then show ?thesis using assms(1) by (simp add: filteredPrices_Some filter_empty_conv)
qed

lemma example_all_feeds:
  "map_of (priceFeeds example_service_all) ''BTC/USD'' = Some ''0xF4030086522a5bEEa4988F8cA5B36dbC97BeE88c''"
  "map_of (priceFeeds example_service_all) ''ETH/USD'' = Some ''0x5f4eC3Df9cbd43714FE2740f5E3616155c5b8419''"
  "map_of (priceFeeds example_service_all) ''BNB/USD'' = Some ''0x14e613AC84a31f709eadbdF89C6CC390fDc9540A''"
  by (simp_all add: priceFeeds_def example_service_all_def CHAINLINK_PRICE_FEEDS_def)

lemma round_600: "round_double 600 = Fin 600"
  using round_double_int [of 600] by simp

lemma round_stamp_bnb: "round_double 1700000020 = Fin 1700000020"
  using round_double_int [of 1700000020] by simp

lemma example_all_direct:
  "getPrice example_service_all ''BTC/USD'' \<noteq> None"
  "getPrice example_service_all ''ETH/USD'' \<noteq> None"
  "getPrice example_service_all ''BNB/USD'' \<noteq> None"
  by (simp_all add: getPrice_direct example_all_feeds)
     (simp_all add: readFeed_def checksum_address_def example_service_all_def
        example_round_def formatUnits_def Number_bigint_def round_stamps round_45123_45
        round_600 round_stamp_bnb)

lemma example_all_derived:
  "getPrice example_service_all ''BTC/ETH'' \<noteq> None"
  "getPrice example_service_all ''BNB/ETH'' \<noteq> None"
  using example_all_direct
  by (auto simp: getPrice_derived getCalculatedPrice_unfold constituents_def)

lemma getAllPrices_all:
  "map symbol (getAllPrices example_service_all) =
     [''BTC/USD'', ''ETH/USD'', ''BTC/ETH'', ''BNB/ETH'']"
  by (simp add: getAllPrices_symbols example_all_direct example_all_derived)

text \<open>
  Claim C10. BNB/USD has an entry in both address tables, yet every price that
  \<open>getAllPrices\<close> returns is for one of BTC/USD, ETH/USD, BTC/ETH, BNB/ETH, never for
  BNB/USD, and there is a service for which all four are returned. So a bot whose configured
  symbols are at most BNB/USD sends nothing in a cycle fed by \<open>getAllPrices\<close>: the cycle, a
  manual update and a timer firing leave the state as it is, and \<open>start\<close> delivers no
  message.
\<close>

theorem bnb_usd_never_fetched:
  "map_of CHAINLINK_PRICE_FEEDS ''BNB/USD'' \<noteq> None \<and>
   map_of CHAINLINK_PRICE_FEEDS_SEPOLIA ''BNB/USD'' \<noteq> None \<and>
   (\<forall>p \<in> set (getAllPrices svc).
      symbol p \<in> {''BTC/USD'', ''ETH/USD'', ''BTC/ETH'', ''BNB/ETH''} \<and> symbol p \<noteq> ''BNB/USD'') \<and>
   (\<exists>all. map symbol (getAllPrices all) = [''BTC/USD'', ''ETH/USD'', ''BTC/ETH'', ''BNB/ETH'']) \<and>
   (fetched e = Inr (getAllPrices svc) \<and> this_symbols s = Some syms \<and>
    set syms \<subseteq> {''BNB/USD''} \<longrightarrow>
      sendPriceUpdate e s = (Inr (), s) \<and> triggerManualUpdate e s = (Inr (), s) \<and>
      fire e h s = s \<and> delivered (start e s) = delivered s)"
proof (intro conjI ballI impI)
  show "map_of CHAINLINK_PRICE_FEEDS ''BNB/USD'' \<noteq> None"
    by (simp add: CHAINLINK_PRICE_FEEDS_def)
  show "map_of CHAINLINK_PRICE_FEEDS_SEPOLIA ''BNB/USD'' \<noteq> None"
    by (simp add: CHAINLINK_PRICE_FEEDS_SEPOLIA_def)
  show "\<exists>all. map symbol (getAllPrices all) = [''BTC/USD'', ''ETH/USD'', ''BTC/ETH'', ''BNB/ETH'']"
    by (rule exI [of _ example_service_all]) (rule getAllPrices_all)
next
  fix p assume "p \<in> set (getAllPrices svc)"
  then show c: "symbol p \<in> {''BTC/USD'', ''ETH/USD'', ''BTC/ETH'', ''BNB/ETH''}"
    by (rule getAllPrices_canonical)
  then show "symbol p \<noteq> ''BNB/USD''" by auto
next
  assume a: "fetched e = Inr (getAllPrices svc) \<and> this_symbols s = Some syms \<and>
    set syms \<subseteq> {''BNB/USD''}"
  then have f: "fetched e = Inr (getAllPrices svc)"
    and n: "filteredPrices s (getAllPrices svc) = Inr []"
    by (simp_all add: filtered_bnb_only)
  from f n show "sendPriceUpdate e s = (Inr (), s)" by (rule cycle_nothing)
  then show "triggerManualUpdate e s = (Inr (), s)" by (simp add: triggerManualUpdate_def)
  from f n show "fire e h s = s" by (rule fire_nothing)
  from f n show "delivered (start e s) = delivered s" by (rule start_nothing)
qed

text \<open>A bot configured for BNB/USD alone, on the example network.\<close>

theorem bnb_usd_never_fetched_witness:
  "example_btc \<in> set (getAllPrices example_service) \<and> symbol example_btc \<noteq> ''BNB/USD'' \<and>
   this_symbols (new_PriceBot (Fin 5) True [''BNB/USD'']) = Some [''BNB/USD''] \<and>
   sendPriceUpdate (example_env (Inr (getAllPrices example_service)) (\<lambda>m. False))
     (new_PriceBot (Fin 5) True [''BNB/USD'']) =
     (Inr (), new_PriceBot (Fin 5) True [''BNB/USD'']) \<and>
   delivered (start (example_env (Inr (getAllPrices example_service)) (\<lambda>m. False))
     (new_PriceBot (Fin 5) True [''BNB/USD''])) = []"
proof -
  have s: "this_symbols (new_PriceBot (Fin 5) True [''BNB/USD'']) = Some [''BNB/USD'']"
    by (simp add: new_PriceBot_def this_symbols_def this_config_def)
  have d: "delivered (new_PriceBot (Fin 5) True [''BNB/USD'']) = []"
    by (simp add: new_PriceBot_def)
  have m: "example_btc \<in> set (getAllPrices example_service)"
    by (simp add: getAllPrices_example)
  show ?thesis
    using bnb_usd_never_fetched [of example_service
        "example_env (Inr (getAllPrices example_service)) (\<lambda>m. False)"
        "new_PriceBot (Fin 5) True [''BNB/USD'']" "[''BNB/USD'']"] m
    by (simp add: s d example_env_fields)
qed

subsection \<open>The timer\<close>

lemma assign_frame:
  "intervalId (assign_config c s) = intervalId s" "timers (assign_config c s) = timers s"
  "next_timer (assign_config c s) = next_timer s" "delivered (assign_config c s) = delivered s"
  "arrays (assign_config c s) = arrays s" "maps (assign_config c s) = maps s"
  "previousPrices (assign_config c s) = previousPrices s"
  "config (assign_config c s) = next_ref s" "next_ref (assign_config c s) = next_ref s + 1"
  "this_config (assign_config c s) = c"
  by (simp_all add: assign_config_def this_config_def)

lemma stop_timers:
  "map fst (timers s) = (case intervalId s of None \<Rightarrow> [] | Some h \<Rightarrow> [h]) \<Longrightarrow>
     timers (stop s) = []"
  by (auto simp: stop_def split: option.splits)

lemma start_disabled:
  assumes "map fst (timers s) = (case intervalId s of None \<Rightarrow> [] | Some h \<Rightarrow> [h])"
    and "\<not> truthy (enabled (this_config s))"
  shows "timers (start e s) = []" and "intervalId (start e s) = None"
    and "delivered (start e s) = delivered s"
  using assms
  by (auto simp: start_def stop_this stop_frame stop_timers split: option.splits)

lemma start_enabled:
  assumes "map fst (timers s) = (case intervalId s of None \<Rightarrow> [] | Some h \<Rightarrow> [h])"
    and "truthy (enabled (this_config s))"
  shows "timers (start e s) = [(next_timer s, interval_delay (this_config s))]"
    and "intervalId (start e s) = Some (next_timer s)"
proof -
  let ?s1 = "if intervalId s \<noteq> None then stop s else s"
  have t: "timers ?s1 = []" using assms(1) by (auto simp: stop_timers split: option.splits)
  have c: "this_config ?s1 = this_config s" "next_timer ?s1 = next_timer s"
    by (simp_all add: stop_this stop_frame)
  show "timers (start e s) = [(next_timer s, interval_delay (this_config s))]"
    using assms(2) t c by (simp add: start_def Let_def cycle_frame cycle_this_config)
  show "intervalId (start e s) = Some (next_timer s)"
    using assms(2) c by (simp add: start_def Let_def cycle_frame)
qed

lemma timer_inv_start:
  assumes "map fst (timers s) = (case intervalId s of None \<Rightarrow> [] | Some h \<Rightarrow> [h])"
  shows "timer_inv (start e s)"
proof (cases "truthy (enabled (this_config s))")
  case True
  with assms show ?thesis
    by (simp add: timer_inv_def start_enabled start_this)
next
  case False
  with assms show ?thesis
    by (simp add: timer_inv_def start_disabled)
qed

lemma timer_inv_stop: "timer_inv s \<Longrightarrow> timer_inv (stop s)"
  by (simp add: timer_inv_def stop_frame stop_timers)

lemma timer_inv_cycle: "timer_inv s \<Longrightarrow> timer_inv (snd (sendPriceUpdate e s))"
  by (simp add: timer_inv_def cycle_frame cycle_this_config)

lemma timer_inv_fire: "timer_inv s \<Longrightarrow> timer_inv (fire e h s)"
  by (simp add: fire_def timer_inv_cycle)

lemma timer_inv_updateConfig:
  assumes "timer_inv s"
  shows "timer_inv (updateConfig e p s)"
proof -
  let ?s1 = "assign_config (spread (this_config s) p) s"
  from assms have t: "map fst (timers ?s1) = (case intervalId ?s1 of None \<Rightarrow> [] | Some h \<Rightarrow> [h])"
    by (simp add: timer_inv_def assign_frame)
  show ?thesis
  proof (cases "truthy (enabled (this_config ?s1)) \<and> intervalId ?s1 = None")
    case True
    then show ?thesis using t by (simp add: updateConfig_def Let_def timer_inv_start)
  next
    case n: False
    show ?thesis
    proof (cases "\<not> truthy (enabled (this_config ?s1)) \<and> intervalId ?s1 \<noteq> None")
      case True
      then have "updateConfig e p s = stop ?s1" by (auto simp: updateConfig_def Let_def)
      then show ?thesis using t by (simp add: timer_inv_def stop_frame stop_timers)
    next
      case False
      with n have "updateConfig e p s = ?s1" by (auto simp: updateConfig_def Let_def)
      then show ?thesis using t n False by (auto simp: timer_inv_def)
    qed
  qed
qed

lemma getConfig_frame:
  "intervalId (snd (getConfig s)) = intervalId s" "timers (snd (getConfig s)) = timers s"
  "delivered (snd (getConfig s)) = delivered s" "config (snd (getConfig s)) = config s"
  "arrays (snd (getConfig s)) = arrays s" "maps (snd (getConfig s)) = maps s"
  "previousPrices (snd (getConfig s)) = previousPrices s"
  "next_ref (snd (getConfig s)) = next_ref s + 1" "fst (getConfig s) = next_ref s"
  "this_config (snd (getConfig s)) = this_config s"
  "configs (snd (getConfig s)) (fst (getConfig s)) = this_config s"
  by (simp_all add: getConfig_def this_config_def)

lemma getPreviousPrices_frame:
  "intervalId (snd (getPreviousPrices s)) = intervalId s"
  "timers (snd (getPreviousPrices s)) = timers s"
  "delivered (snd (getPreviousPrices s)) = delivered s"
  "config (snd (getPreviousPrices s)) = config s"
  "configs (snd (getPreviousPrices s)) = configs s"
  "arrays (snd (getPreviousPrices s)) = arrays s"
  "previousPrices (snd (getPreviousPrices s)) = previousPrices s"
  "next_ref (snd (getPreviousPrices s)) = next_ref s + 1"
  "fst (getPreviousPrices s) = next_ref s"
  "maps (snd (getPreviousPrices s)) (fst (getPreviousPrices s)) = maps s (previousPrices s)"
  "maps (snd (getPreviousPrices s)) (previousPrices s) = maps s (previousPrices s)"
  by (simp_all add: getPreviousPrices_def)

lemma timer_inv_perform: "timer_inv s \<Longrightarrow> timer_inv (perform c s)"
proof (cases c)
  case (Start e)
  assume "timer_inv s"
  then have "map fst (timers s) = (case intervalId s of None \<Rightarrow> [] | Some h \<Rightarrow> [h])"
    by (simp add: timer_inv_def)
  then show ?thesis using Start by (simp add: timer_inv_start)
next
  case Stop
  assume "timer_inv s"
  then show ?thesis using Stop by (simp add: timer_inv_stop)
next
  case (UpdateConfig e p)
  assume "timer_inv s"
  then show ?thesis using UpdateConfig by (simp add: timer_inv_updateConfig)
next
  case (TriggerManualUpdate e)
  assume "timer_inv s"
  then show ?thesis using TriggerManualUpdate
    by (simp add: triggerManualUpdate_def timer_inv_cycle)
next
  case (Fire e h)
  assume "timer_inv s"
  then show ?thesis using Fire by (simp add: timer_inv_fire)
next
  case GetConfig
  assume "timer_inv s"
  then show ?thesis using GetConfig by (simp add: timer_inv_def getConfig_frame)
next
  case GetPreviousPrices
  assume "timer_inv s"
  then show ?thesis using GetPreviousPrices
    by (simp add: timer_inv_def getPreviousPrices_frame this_config_def)
qed

lemma timer_inv_fold: "timer_inv s \<Longrightarrow> timer_inv (fold perform cs s)"
  by (induction cs arbitrary: s) (simp_all add: timer_inv_perform)

lemma timer_inv_new: "timer_inv (new_PriceBot minutes en syms)"
  by (simp add: timer_inv_def new_PriceBot_def)

lemma reachable_timer_inv: "timer_inv (run cs (new_PriceBot minutes en syms))"
  unfolding run_def by (rule timer_inv_fold) (rule timer_inv_new)

lemma timer_inv_timers:
  assumes "timer_inv s"
  shows "length (timers s) \<le> 1" and "isRunning s \<longleftrightarrow> length (timers s) = 1"
    and "\<not> truthy (enabled (this_config s)) \<longrightarrow> timers s = [] \<and> \<not> isRunning s"
proof -
  from assms have c: "map fst (timers s) = (case intervalId s of None \<Rightarrow> [] | Some h \<Rightarrow> [h])"
    and d: "truthy (enabled (this_config s)) \<or> intervalId s = None"
    by (simp_all add: timer_inv_def)
  have l: "length (timers s) = length (map fst (timers s))" by simp
  show "length (timers s) \<le> 1"
    using c by (cases "intervalId s") (simp_all add: l del: length_map)
  show "isRunning s \<longleftrightarrow> length (timers s) = 1"
    using c by (cases "intervalId s") (simp_all add: isRunning_def l del: length_map)
  show "\<not> truthy (enabled (this_config s)) \<longrightarrow> timers s = [] \<and> \<not> isRunning s"
    using c d by (auto simp: isRunning_def)
qed

text \<open>
  Claim C6, as amended. In every state that calls of the bot's methods and timer firings
  reach from a new bot, at most one timer is active, the bot is running exactly when one
  is, and a bot whose \<open>enabled\<close> is not \<open>true\<close> has none. From such a state, two calls of
  \<open>start\<close> in a row leave exactly one timer when the bot is enabled, and \<open>start\<close> on a
  disabled bot arms no timer and delivers no message.
\<close>

theorem timer_invariant:
  fixes cs minutes en syms
  defines "s \<equiv> run cs (new_PriceBot minutes en syms)"
  shows "length (timers s) \<le> 1 \<and>
    (isRunning s \<longleftrightarrow> length (timers s) = 1) \<and>
    (enabled (this_config s) \<noteq> Some True \<longrightarrow> timers s = [] \<and> \<not> isRunning s) \<and>
    (enabled (this_config s) = Some True \<longrightarrow>
       length (timers (start e2 (start e1 s))) = 1 \<and> isRunning (start e2 (start e1 s))) \<and>
    (enabled (this_config s) \<noteq> Some True \<longrightarrow>
       timers (start e1 s) = [] \<and> \<not> isRunning (start e1 s) \<and>
       delivered (start e1 s) = delivered s)"
proof -
  have inv: "timer_inv s" unfolding s_def by (rule reachable_timer_inv)
  then have c: "map fst (timers s) = (case intervalId s of None \<Rightarrow> [] | Some h \<Rightarrow> [h])"
    by (simp add: timer_inv_def)
  have twice: "length (timers (start e2 (start e1 s))) = 1 \<and> isRunning (start e2 (start e1 s))"
    if en: "enabled (this_config s) = Some True"
  proof -
    have one: "timer_inv (start e1 s)" using c by (rule timer_inv_start)
    then have c1: "map fst (timers (start e1 s)) = (case intervalId (start e1 s) of None \<Rightarrow> [] | Some h \<Rightarrow> [h])"
      by (simp add: timer_inv_def)
    have "truthy (enabled (this_config (start e1 s)))" using en by (simp add: start_this truthy_def)
    with c1 show ?thesis
      by (simp add: start_enabled isRunning_def)
  qed
  have off: "timers (start e1 s) = [] \<and> \<not> isRunning (start e1 s) \<and>
       delivered (start e1 s) = delivered s" if "enabled (this_config s) \<noteq> Some True"
    using c that by (simp add: start_disabled isRunning_def truthy_def)
  from timer_inv_timers [OF inv] twice off show ?thesis unfolding truthy_def by blast
qed

lemma new_fields:
  "this_config (new_PriceBot minutes en syms) =
     \<lparr>intervalMinutes = Some minutes, enabled = Some en, symbols = Some 1\<rparr>"
  "this_symbols (new_PriceBot minutes en syms) = Some syms"
  "timers (new_PriceBot minutes en syms) = []"
  "intervalId (new_PriceBot minutes en syms) = None"
  "next_timer (new_PriceBot minutes en syms) = 1"
  "delivered (new_PriceBot minutes en syms) = []"
  "config (new_PriceBot minutes en syms) = 0"
  "previousPrices (new_PriceBot minutes en syms) = 2"
  "next_ref (new_PriceBot minutes en syms) = 3"
  "maps (new_PriceBot minutes en syms) r = []"
  by (simp_all add: new_PriceBot_def this_config_def this_symbols_def)

lemma delay_5: "interval_delay \<lparr>intervalMinutes = Some (Fin 5), enabled = en, symbols = sy\<rparr> = Fin 300000"
  using round_double_int [of 300] round_double_int [of 300000]
  by (simp add: interval_delay_def to_number_def)

lemma started_default:
  "timers (start e createPriceBot) = [(1, Fin 300000)]"
  "intervalId (start e createPriceBot) = Some 1"
  "this_config (start e createPriceBot) =
     \<lparr>intervalMinutes = Some (Fin 5), enabled = Some True, symbols = Some 1\<rparr>"
  "timer_inv (start e createPriceBot)"
proof -
  have i: "map fst (timers createPriceBot) =
      (case intervalId createPriceBot of None \<Rightarrow> [] | Some h \<Rightarrow> [h])"
    by (simp add: createPriceBot_def new_fields)
  have en: "truthy (enabled (this_config createPriceBot))"
    by (simp add: createPriceBot_def new_fields truthy_def)
  show "timers (start e createPriceBot) = [(1, Fin 300000)]"
    using start_enabled(1) [OF i en, of e] by (simp add: createPriceBot_def new_fields delay_5)
  show "intervalId (start e createPriceBot) = Some 1"
    using start_enabled(2) [OF i en, of e] by (simp add: createPriceBot_def new_fields)
  show "this_config (start e createPriceBot) =
      \<lparr>intervalMinutes = Some (Fin 5), enabled = Some True, symbols = Some 1\<rparr>"
    by (simp add: start_this createPriceBot_def new_fields)
  show "timer_inv (start e createPriceBot)"
    using i by (rule timer_inv_start)
qed

text \<open>A default bot that was started and stopped, and a new bot that is disabled.\<close>

theorem timer_invariant_witness:
  "enabled (this_config (run [Start example_quiet, Stop] createPriceBot)) = Some True \<and>
   length (timers (start example_quiet (start example_quiet
     (run [Start example_quiet, Stop] createPriceBot)))) = 1 \<and>
   enabled (this_config (run [] (new_PriceBot (Fin 5) False [''BTC/USD'']))) \<noteq> Some True \<and>
   timers (start example_quiet (run [] (new_PriceBot (Fin 5) False [''BTC/USD'']))) = []"
proof -
  have en: "enabled (this_config (run [Start example_quiet, Stop] createPriceBot)) = Some True"
    by (simp add: run_def stop_this start_this createPriceBot_def new_fields)
  have dis: "enabled (this_config (run [] (new_PriceBot (Fin 5) False [''BTC/USD'']))) \<noteq> Some True"
    by (simp add: run_def new_fields)
  from timer_invariant [of "[Start example_quiet, Stop]" "Fin 5" True
      "[''BTC/USD'', ''ETH/USD'', ''BTC/ETH'', ''BNB/ETH'']" example_quiet example_quiet] en
  have "length (timers (start example_quiet (start example_quiet
      (run [Start example_quiet, Stop] createPriceBot)))) = 1"
    unfolding createPriceBot_def by blast
  moreover
  from timer_invariant [of "[]" "Fin 5" False "[''BTC/USD'']" example_quiet example_quiet] dis
  have "timers (start example_quiet (run [] (new_PriceBot (Fin 5) False [''BTC/USD'']))) = []"
    by blast
  ultimately show ?thesis using en dis by blast
qed

text \<open>
  Claim C6 as stated fails: a new bot on the default configuration is enabled and has no
  active timer before \<open>start\<close> is called, and again after \<open>start\<close> and \<open>stop\<close>.
\<close>

theorem timer_invariant_counterexample:
  "enabled (this_config (run [] createPriceBot)) = Some True \<and>
   timers (run [] createPriceBot) = [] \<and>
   enabled (this_config (run [Start example_quiet, Stop] createPriceBot)) = Some True \<and>
   timers (run [Start example_quiet, Stop] createPriceBot) = []"
proof -
  have i: "timer_inv (start example_quiet createPriceBot)"
    by (rule started_default)
  then have "timers (stop (start example_quiet createPriceBot)) = []"
    by (intro stop_timers) (simp add: timer_inv_def)
  moreover have "enabled (this_config (stop (start example_quiet createPriceBot))) = Some True"
    by (simp add: stop_this start_this createPriceBot_def new_fields)
  ultimately show ?thesis
    by (simp add: run_def createPriceBot_def new_fields)
qed

subsection \<open>Changing the configuration\<close>

lemma advance_idle: "timers s = [] \<Longrightarrow> advance e s = s"
  by (simp add: advance_def)

text \<open>The fields of the merged configuration, one by one.\<close>

lemma spread_fields:
  "intervalMinutes_opt p = Absent \<Longrightarrow> intervalMinutes (spread c p) = intervalMinutes c"
  "intervalMinutes_opt p = Present v \<Longrightarrow> intervalMinutes (spread c p) = v"
  "enabled_opt p = Absent \<Longrightarrow> enabled (spread c p) = enabled c"
  "enabled_opt p = Present b \<Longrightarrow> enabled (spread c p) = b"
  "symbols_opt p = Absent \<Longrightarrow> symbols (spread c p) = symbols c"
  "symbols_opt p = Present a \<Longrightarrow> symbols (spread c p) = a"
  by (simp_all add: spread_def)

text \<open>The delay of a whole number of minutes is that many times 60000 milliseconds.\<close>

lemma interval_delay_minutes:
  assumes "intervalMinutes c = Some (Fin (of_int k))" and "\<bar>k\<bar> * 60000 < 2 ^ 53"
  shows "interval_delay c = Fin (of_int k * 60000)"
proof -
  from assms(2) have a: "\<bar>k * 60\<bar> < 2 ^ 53" and b: "\<bar>k * 60000\<bar> < 2 ^ 53"
    by (simp_all add: abs_mult)
  have "js_mul (Fin (of_int k)) (Fin 60) = round_double (of_int (k * 60))"
    by simp
  also have "\<dots> = Fin (of_int (k * 60))" using a by (rule round_double_int)
  finally have m1: "js_mul (Fin (of_int k)) (Fin 60) = Fin (of_int (k * 60))" .
  have "js_mul (Fin (of_int (k * 60))) (Fin 1000) = round_double (of_int (k * 60000))"
    by (simp add: ac_simps)
  also have "\<dots> = Fin (of_int (k * 60000))" using b by (rule round_double_int)
  finally have m2: "js_mul (Fin (of_int (k * 60))) (Fin 1000) = Fin (of_int (k * 60000))" .
  have "interval_delay c = js_mul (js_mul (Fin (of_int k)) (Fin 60)) (Fin 1000)"
    by (simp only: interval_delay_def to_number_def assms(1) option.case)
  also have "\<dots> = js_mul (Fin (of_int (k * 60))) (Fin 1000)" by (simp only: m1)
  also have "\<dots> = Fin (of_int (k * 60000))" by (rule m2)
  finally show ?thesis by simp
qed

text \<open>
  Claim C8. After \<open>updateConfig\<close> each field of the configuration holds the value the
  partial configuration gives for its key, \<open>undefined\<close> included, and the old value when
  the partial configuration lacks the key. When the merged \<open>enabled\<close> is \<open>true\<close> and the
  bot is stopped, the call is \<open>start\<close> on the state with the new configuration: the bot
  runs, and (the timer invariant given) its one timer has the delay of the merged
  \<open>intervalMinutes\<close>. When the merged \<open>enabled\<close> is not \<open>true\<close> and the bot is running,
  the call is \<open>stop\<close> on that state: the bot is stopped, no message is delivered, and (the
  timer invariant given) no timer is left, so that letting the timers fire changes
  nothing. In the two other cases only the configuration changes: the timers, with their
  delays, the handle and the delivered messages are the same, also when \<open>intervalMinutes\<close>
  is new.
\<close>

theorem updateConfig_reaction:
  fixes e p s
  defines "m \<equiv> this_config (updateConfig e p s)"
  shows "(intervalMinutes_opt p = Absent \<longrightarrow> intervalMinutes m = intervalMinutes (this_config s)) \<and>
    (intervalMinutes_opt p = Present v \<longrightarrow> intervalMinutes m = v) \<and>
    (enabled_opt p = Absent \<longrightarrow> enabled m = enabled (this_config s)) \<and>
    (enabled_opt p = Present b \<longrightarrow> enabled m = b) \<and>
    (symbols_opt p = Absent \<longrightarrow> symbols m = symbols (this_config s)) \<and>
    (symbols_opt p = Present a \<longrightarrow> symbols m = a) \<and>
    (enabled m = Some True \<and> \<not> isRunning s \<longrightarrow>
       updateConfig e p s = start e (assign_config m s) \<and> isRunning (updateConfig e p s) \<and>
       (timer_inv s \<longrightarrow>
          timers (updateConfig e p s) = [(next_timer s, interval_delay m)] \<and>
          (intervalMinutes m = Some (Fin (of_int k)) \<and> \<bar>k\<bar> * 60000 < 2 ^ 53 \<longrightarrow>
             timers (updateConfig e p s) = [(next_timer s, Fin (of_int k * 60000))]))) \<and>
    (enabled m \<noteq> Some True \<and> isRunning s \<longrightarrow>
       updateConfig e p s = stop (assign_config m s) \<and> \<not> isRunning (updateConfig e p s) \<and>
       delivered (updateConfig e p s) = delivered s \<and>
       (timer_inv s \<longrightarrow>
          timers (updateConfig e p s) = [] \<and>
          advance e' (updateConfig e p s) = updateConfig e p s)) \<and>
    ((enabled m = Some True \<longleftrightarrow> isRunning s) \<longrightarrow>
       updateConfig e p s = assign_config m s \<and> timers (updateConfig e p s) = timers s \<and>
       intervalId (updateConfig e p s) = intervalId s \<and>
       delivered (updateConfig e p s) = delivered s)"
proof -
  let ?m = "spread (this_config s) p"
  let ?s1 = "assign_config ?m s"
  have u: "updateConfig e p s =
      (if enabled ?m = Some True \<and> \<not> isRunning s then start e ?s1
       else if enabled ?m \<noteq> Some True \<and> isRunning s then stop ?s1 else ?s1)"
    by (simp add: updateConfig_def Let_def assign_frame isRunning_def truthy_def)
  have m: "m = ?m"
    by (simp add: m_def u start_this stop_this assign_frame)
  have f: "intervalMinutes_opt p = Absent \<longrightarrow> intervalMinutes m = intervalMinutes (this_config s)"
    "intervalMinutes_opt p = Present v \<longrightarrow> intervalMinutes m = v"
    "enabled_opt p = Absent \<longrightarrow> enabled m = enabled (this_config s)"
    "enabled_opt p = Present b \<longrightarrow> enabled m = b"
    "symbols_opt p = Absent \<longrightarrow> symbols m = symbols (this_config s)"
    "symbols_opt p = Present a \<longrightarrow> symbols m = a"
    unfolding m by (simp_all add: spread_fields)
  have a: "updateConfig e p s = start e (assign_config m s) \<and> isRunning (updateConfig e p s) \<and>
       (timer_inv s \<longrightarrow>
          timers (updateConfig e p s) = [(next_timer s, interval_delay m)] \<and>
          (intervalMinutes m = Some (Fin (of_int k)) \<and> \<bar>k\<bar> * 60000 < 2 ^ 53 \<longrightarrow>
             timers (updateConfig e p s) = [(next_timer s, Fin (of_int k * 60000))]))"
    if h: "enabled m = Some True \<and> \<not> isRunning s"
  proof -
    from h have eq: "updateConfig e p s = start e ?s1" by (simp add: u m)
    from h have n: "intervalId ?s1 = None" by (simp add: isRunning_def assign_frame)
    from h have en: "truthy (enabled (this_config ?s1))"
      by (simp add: m assign_frame truthy_def)
    have run: "isRunning (start e ?s1)"
      using en n by (simp add: start_def Let_def isRunning_def)
    have t: "timers (start e ?s1) = [(next_timer s, interval_delay m)]" if "timer_inv s"
    proof -
      from that have "map fst (timers ?s1) = (case intervalId ?s1 of None \<Rightarrow> [] | Some h \<Rightarrow> [h])"
        by (simp add: timer_inv_def assign_frame)
      from start_enabled(1) [OF this en, of e] show ?thesis
        by (simp add: assign_frame m)
    qed
    have d: "interval_delay m = Fin (of_int k * 60000)"
      if "intervalMinutes m = Some (Fin (of_int k)) \<and> \<bar>k\<bar> * 60000 < 2 ^ 53"
      using that by (auto intro: interval_delay_minutes)
    from eq run t d show ?thesis by (simp add: m)
  qed
  have b: "updateConfig e p s = stop (assign_config m s) \<and> \<not> isRunning (updateConfig e p s) \<and>
       delivered (updateConfig e p s) = delivered s \<and>
       (timer_inv s \<longrightarrow>
          timers (updateConfig e p s) = [] \<and>
          advance e' (updateConfig e p s) = updateConfig e p s)"
    if h: "enabled m \<noteq> Some True \<and> isRunning s"
  proof -
    from h have eq: "updateConfig e p s = stop ?s1" by (auto simp: u m)
    have "timers (stop ?s1) = []" if "timer_inv s"
      using that by (intro stop_timers) (simp add: timer_inv_def assign_frame)
    then show ?thesis
      by (simp add: eq m isRunning_def stop_frame assign_frame advance_idle)
  qed
  have d: "updateConfig e p s = assign_config m s \<and> timers (updateConfig e p s) = timers s \<and>
       intervalId (updateConfig e p s) = intervalId s \<and>
       delivered (updateConfig e p s) = delivered s"
    if h: "enabled m = Some True \<longleftrightarrow> isRunning s"
  proof -
    from h have "updateConfig e p s = ?s1" by (auto simp: u m)
    then show ?thesis by (simp add: assign_frame m)
  qed
  from f a b d show ?thesis by blast
qed

lemma quiet_fields:
  "fetched example_quiet = Inr []" "\<not> callback_throws example_quiet x"
  by (simp_all add: example_quiet_def example_env_fields)

text \<open>
  On a started default bot: disabling it; setting \<open>enabled\<close> to \<open>undefined\<close>, which stops
  it as well; changing the interval to one minute (the timer keeps its delay of 300000
  ms). On a new bot: enabling it, which starts it with that delay.
\<close>

theorem updateConfig_reaction_witness:
  "enabled (this_config (updateConfig example_quiet example_disable example_started)) =
     Some False \<and>
   timers (updateConfig example_quiet example_disable example_started) = [] \<and>
   advance example_quiet (updateConfig example_quiet example_disable example_started) =
     updateConfig example_quiet example_disable example_started \<and>
   isRunning example_started \<and>
   enabled (this_config (updateConfig example_quiet example_undefined example_started)) = None \<and>
   \<not> isRunning (updateConfig example_quiet example_undefined example_started) \<and>
   timers (updateConfig example_quiet example_undefined example_started) = [] \<and>
   intervalMinutes (this_config (updateConfig example_quiet example_one_minute example_started)) =
     Some (Fin 1) \<and>
   symbols (this_config (updateConfig example_quiet example_one_minute example_started)) =
     Some 1 \<and>
   timers (updateConfig example_quiet example_one_minute example_started) = [(1, Fin 300000)] \<and>
   isRunning (updateConfig example_quiet example_enable createPriceBot) \<and>
   timers (updateConfig example_quiet example_enable createPriceBot) = [(1, Fin 300000)]"
proof -
  have st: "timers example_started = [(1, Fin 300000)]"
    "intervalId example_started = Some 1"
    "this_config example_started =
       \<lparr>intervalMinutes = Some (Fin 5), enabled = Some True, symbols = Some 1\<rparr>"
    "timer_inv example_started"
    unfolding example_started_def by (rule started_default)+
  have r: "isRunning example_started"
    by (simp add: isRunning_def st)
  have n: "\<not> isRunning createPriceBot"
    by (simp add: isRunning_def createPriceBot_def new_fields)
  have c: "this_config createPriceBot =
      \<lparr>intervalMinutes = Some (Fin 5), enabled = Some True, symbols = Some 1\<rparr>"
    "next_timer createPriceBot = 1" "timer_inv createPriceBot"
    by (simp_all add: createPriceBot_def new_fields timer_inv_new)
  let ?off = "updateConfig example_quiet example_disable example_started"
  let ?und = "updateConfig example_quiet example_undefined example_started"
  let ?one = "updateConfig example_quiet example_one_minute example_started"
  let ?on = "updateConfig example_quiet example_enable createPriceBot"
  note off = updateConfig_reaction [of example_disable example_quiet example_started
      "Some (Fin 1)" "Some False" "Some 1" 5 example_quiet]
  from off have off_en: "enabled (this_config ?off) = Some False"
    by (simp add: example_disable_def)
  with off r st(4) have off_t: "timers ?off = [] \<and> advance example_quiet ?off = ?off"
    by simp
  note und = updateConfig_reaction [of example_undefined example_quiet example_started
      "Some (Fin 1)" None "Some 1" 5 example_quiet]
  from und have und_en: "enabled (this_config ?und) = None"
    by (simp add: example_undefined_def)
  with und r st(4) have und_t: "\<not> isRunning ?und \<and> timers ?und = []"
    by simp
  note one = updateConfig_reaction [of example_one_minute example_quiet example_started
      "Some (Fin 1)" "Some True" "Some 1" 1 example_quiet]
  from one have one_m: "intervalMinutes (this_config ?one) = Some (Fin 1)"
    and one_s: "symbols (this_config ?one) = Some 1"
    and one_e: "enabled (this_config ?one) = Some True"
    by (simp_all add: example_one_minute_def st)
  with one r have one_t: "timers ?one = [(1, Fin 300000)]"
    by (simp add: st)
  note on = updateConfig_reaction [of example_enable example_quiet createPriceBot
      "Some (Fin 5)" "Some True" "Some 1" 5 example_quiet]
  from on have on_e: "enabled (this_config ?on) = Some True"
    and on_m: "intervalMinutes (this_config ?on) = Some (Fin (of_int 5))"
    by (simp_all add: example_enable_def c)
  from on have "enabled (this_config ?on) = Some True \<and> \<not> isRunning createPriceBot \<longrightarrow>
      isRunning ?on \<and>
      (timer_inv createPriceBot \<longrightarrow>
         (intervalMinutes (this_config ?on) = Some (Fin (of_int 5)) \<and>
          \<bar>5 :: int\<bar> * 60000 < 2 ^ 53 \<longrightarrow>
            timers ?on = [(next_timer createPriceBot, Fin (of_int 5 * 60000))]))"
    by blast
  with on_e on_m n c(2,3) have on_t: "isRunning ?on \<and> timers ?on = [(1, Fin 300000)]"
    by simp
  from off_en off_t r und_en und_t one_m one_s one_t on_t show ?thesis by blast
qed

subsection \<open>The accessors\<close>

lemma cycle_cong:
  assumes "this_symbols s' = this_symbols s" and "delivered s' = delivered s"
  shows "fst (sendPriceUpdate e s') = fst (sendPriceUpdate e s)"
    and "delivered (snd (sendPriceUpdate e s')) = delivered (snd (sendPriceUpdate e s))"
  using assms
  by (auto simp: sendPriceUpdate_def sendPriceUpdate_try_def filteredPrices_def Let_def
        messageCallback_def split: sum.splits)

lemma write_config_frame:
  "config (write_config r c s) = config s" "arrays (write_config r c s) = arrays s"
  "maps (write_config r c s) = maps s" "delivered (write_config r c s) = delivered s"
  "previousPrices (write_config r c s) = previousPrices s"
  "r \<noteq> config s \<Longrightarrow> this_config (write_config r c s) = this_config s"
  by (simp_all add: write_config_def this_config_def)

lemma write_map_frame:
  "this_config (write_map r m s) = this_config s" "this_symbols (write_map r m s) = this_symbols s"
  "delivered (write_map r m s) = delivered s"
  "r \<noteq> r' \<Longrightarrow> maps (write_map r m s) r' = maps s r'"
  by (simp_all add: write_map_def this_config_def this_symbols_def split: option.splits)

lemma getPreviousPrices_this:
  "this_config (snd (getPreviousPrices s)) = this_config s"
  "this_symbols (snd (getPreviousPrices s)) = this_symbols s"
  by (simp_all add: this_symbols_def this_config_def getPreviousPrices_frame
        split: option.splits)

text \<open>
  What the two accessors do keep apart. \<open>getConfig\<close> returns a new object with the fields
  of the bot's configuration: assigning the fields of the returned object changes neither
  the bot's configuration nor its symbols nor what the next cycle delivers.
  \<open>getPreviousPrices\<close> returns a new \<open>Map\<close> with the entries of the bot's: changing the
  returned map changes neither the bot's map nor its configuration nor what the next cycle
  delivers.
\<close>

lemma accessors_fresh_objects:
  assumes "store_inv s"
  shows "fst (getConfig s) \<noteq> config (snd (getConfig s))"
    and "configs (snd (getConfig s)) (fst (getConfig s)) = this_config s"
    and "this_config (write_config (fst (getConfig s)) c (snd (getConfig s))) = this_config s"
    and "this_symbols (write_config (fst (getConfig s)) c (snd (getConfig s))) = this_symbols s"
    and "fst (sendPriceUpdate e (write_config (fst (getConfig s)) c (snd (getConfig s)))) =
      fst (sendPriceUpdate e s)"
    and "delivered (snd (sendPriceUpdate e (write_config (fst (getConfig s)) c (snd (getConfig s))))) =
      delivered (snd (sendPriceUpdate e s))"
    and "fst (getPreviousPrices s) \<noteq> previousPrices (snd (getPreviousPrices s))"
    and "maps (snd (getPreviousPrices s)) (fst (getPreviousPrices s)) = maps s (previousPrices s)"
    and "maps (write_map (fst (getPreviousPrices s)) m (snd (getPreviousPrices s)))
      (previousPrices (snd (getPreviousPrices s))) = maps s (previousPrices s)"
    and "this_config (write_map (fst (getPreviousPrices s)) m (snd (getPreviousPrices s))) =
      this_config s"
    and "fst (sendPriceUpdate e (write_map (fst (getPreviousPrices s)) m (snd (getPreviousPrices s)))) =
      fst (sendPriceUpdate e s)"
    and "delivered (snd (sendPriceUpdate e
        (write_map (fst (getPreviousPrices s)) m (snd (getPreviousPrices s))))) =
      delivered (snd (sendPriceUpdate e s))"
proof -
  let ?r = "fst (getConfig s)" and ?s1 = "snd (getConfig s)"
  let ?q = "fst (getPreviousPrices s)" and ?s2 = "snd (getPreviousPrices s)"
  from assms have lt: "config s < next_ref s" "previousPrices s < next_ref s"
    by (simp_all add: store_inv_def)
  show fresh: "?r \<noteq> config ?s1" using lt by (simp add: getConfig_frame)
  show "configs ?s1 ?r = this_config s" by (rule getConfig_frame)
  show c1: "this_config (write_config ?r c ?s1) = this_config s"
    using fresh by (simp add: write_config_frame getConfig_frame)
  show y1: "this_symbols (write_config ?r c ?s1) = this_symbols s"
    using c1 by (simp add: this_symbols_def write_config_frame getConfig_frame
          split: option.splits)
  have d1: "delivered (write_config ?r c ?s1) = delivered s"
    by (simp add: write_config_frame getConfig_frame)
  show "fst (sendPriceUpdate e (write_config ?r c ?s1)) = fst (sendPriceUpdate e s)"
    and "delivered (snd (sendPriceUpdate e (write_config ?r c ?s1))) =
      delivered (snd (sendPriceUpdate e s))"
    using y1 d1 by (rule cycle_cong)+
  show freshq: "?q \<noteq> previousPrices ?s2" using lt by (simp add: getPreviousPrices_frame)
  show "maps ?s2 ?q = maps s (previousPrices s)" by (rule getPreviousPrices_frame)
  show "maps (write_map ?q m ?s2) (previousPrices ?s2) = maps s (previousPrices s)"
    using freshq by (simp add: write_map_frame getPreviousPrices_frame)
  show "this_config (write_map ?q m ?s2) = this_config s"
    by (simp add: write_map_frame getPreviousPrices_this)
  have y2: "this_symbols (write_map ?q m ?s2) = this_symbols s"
    by (simp add: write_map_frame getPreviousPrices_this)
  have d2: "delivered (write_map ?q m ?s2) = delivered s"
    by (simp add: write_map_frame getPreviousPrices_frame)
  show "fst (sendPriceUpdate e (write_map ?q m ?s2)) = fst (sendPriceUpdate e s)"
    and "delivered (snd (sendPriceUpdate e (write_map ?q m ?s2))) =
      delivered (snd (sendPriceUpdate e s))"
    using y2 d2 by (rule cycle_cong)+
qed

lemma store_inv_perform: "store_inv s \<Longrightarrow> store_inv (perform c s)"
  by (cases c)
     (auto simp: store_inv_def start_frame stop_frame cycle_frame fire_frame
        triggerManualUpdate_def getConfig_frame getPreviousPrices_frame
        updateConfig_def Let_def assign_frame)

lemma store_inv_fold: "store_inv s \<Longrightarrow> store_inv (fold perform cs s)"
  by (induction cs arbitrary: s) (simp_all add: store_inv_perform)

lemma reachable_store_inv: "store_inv (run cs (new_PriceBot minutes en syms))"
  unfolding run_def by (rule store_inv_fold) (simp add: store_inv_def new_fields)

lemma single_filter_btc: "filteredPrices example_single [example_btc] = Inr [example_btc]"
  by (simp add: filteredPrices_def example_single_def new_fields example_btc_def)

lemma emptied_state:
  "example_emptied =
     write_array 1 [] (snd (getConfig (new_PriceBot (Fin 5) True [''BTC/USD''])))"
  by (simp add: example_emptied_def example_single_def getConfig_def new_PriceBot_def
        this_config_def)

text \<open>
  Claim C9 fails on the code for the symbols list. A bot is configured for BTC/USD
  alone. The object \<open>getConfig\<close> returns is a new one, but its \<open>symbols\<close> field is the
  reference of the bot's own array. After the caller has emptied the returned list in
  place, the bot's configured symbols are empty, and a cycle that delivered a price
  message before delivers nothing.
\<close>

theorem getConfig_shares_symbols:
  "this_symbols example_single = Some [''BTC/USD''] \<and>
   fst (getConfig example_single) \<noteq> config (snd (getConfig example_single)) \<and>
   symbols (configs (snd (getConfig example_single)) (fst (getConfig example_single))) =
     symbols (this_config example_single) \<and>
   this_symbols example_emptied = Some [] \<and>
   delivered (snd (sendPriceUpdate (example_env (Inr [example_btc]) (\<lambda>m. False))
     example_single)) = [example_message [example_btc]] \<and>
   delivered (snd (sendPriceUpdate (example_env (Inr [example_btc]) (\<lambda>m. False))
     example_emptied)) = []"
proof -
  let ?e = "example_env (Inr [example_btc]) (\<lambda>m. False)"
  have a: "this_symbols example_single = Some [''BTC/USD'']"
    by (simp add: example_single_def new_fields)
  have f: "fst (getConfig example_single) \<noteq> config (snd (getConfig example_single))"
    by (simp add: getConfig_frame example_single_def new_fields)
  have g: "symbols (configs (snd (getConfig example_single)) (fst (getConfig example_single))) =
      symbols (this_config example_single)"
    by (simp add: getConfig_def this_config_def)
  have b: "this_symbols example_emptied = Some []"
    by (simp add: emptied_state write_array_def this_symbols_def
          this_config_def getConfig_def new_PriceBot_def)
  have d2: "delivered example_emptied = []"
    by (simp add: emptied_state write_array_def getConfig_def new_PriceBot_def)
  have d0: "delivered example_single = []"
    by (simp add: example_single_def new_fields)
  have c: "delivered (snd (sendPriceUpdate ?e example_single)) = [example_message [example_btc]]"
    using cycle_sent(2) [of ?e "[example_btc]" example_single "[example_btc]"
        "''Crypto Price Update''"]
    by (simp add: example_env_fields single_filter_btc example_priceMessage d0)
  have "filteredPrices example_emptied [example_btc] = Inr []"
    by (simp add: filteredPrices_def b)
  then have "sendPriceUpdate ?e example_emptied = (Inr (), example_emptied)"
    by (intro cycle_nothing) (simp_all add: example_env_fields)
  then have d: "delivered (snd (sendPriceUpdate ?e example_emptied)) = []"
    by (simp add: d2)
  from a f g b c d show ?thesis by simp
qed

end
